theory Spec2Isabelle
  imports Main "HOL-Library.Word"
begin

section \<open>JavaScript values\<close>

text \<open>
  Everything the client reads off the wire is typed \<open>any\<close> in the source: the OpenAPI
  document, the submission response, the record fetched back for verification. Such a
  value is one of the following. Numbers are the integers from \<open>-2^53\<close> to
  \<open>2^53 - 1\<close>, kept as 54-bit signed words: a double holds each of them exactly,
  compares them as integers and prints them in plain decimal digits. An object is the
  list of its own properties in enumeration order. Properties inherited from a prototype
  are not part of the model.
\<close>

datatype jsval =
    JUndefined
  | JNull
  | JBool bool
  | JNum "54 word"
  | JStr string
  | JArr "jsval list"
  | JObj "(string \<times> jsval) list"

text \<open>
  The exceptions the code can meet. All of them are instances of \<open>Error\<close>; the
  text of their \<open>message\<close> is chosen by the engine and stays symbolic.
\<close>

datatype js_error =
    PropertyOfNullish string
  | NotAFunction string
  | FetchFailed string
  | JsonSyntax string

text \<open>The text stored in a result's \<open>error\<close> field: a literal built by the code, or
  the \<open>message\<close> of a caught exception.\<close>

datatype error_text = Literal string | MessageOf js_error

text \<open>Truthiness, as \<open>||\<close>, \<open>!\<close>, \<open>if\<close> and \<open>? :\<close> test it.\<close>

fun truthy :: "jsval \<Rightarrow> bool" where
  "truthy JUndefined = False"
| "truthy JNull = False"
| "truthy (JBool b) = b"
| "truthy (JNum n) = (n \<noteq> 0)"
| "truthy (JStr s) = (s \<noteq> [])"
| "truthy (JArr xs) = True"
| "truthy (JObj kvs) = True"

fun nullish :: "jsval \<Rightarrow> bool" where
  "nullish JUndefined = True"
| "nullish JNull = True"
| "nullish v = False"

text \<open>The values that \<open>===\<close> compares by what they are; objects and arrays it
  compares by identity.\<close>

fun primitive :: "jsval \<Rightarrow> bool" where
  "primitive (JArr xs) = False"
| "primitive (JObj kvs) = False"
| "primitive v = True"

text \<open>\<open>a || b\<close>\<close>

definition js_or :: "jsval \<Rightarrow> jsval \<Rightarrow> jsval" where
  "js_or a b = (if truthy a then a else b)"

text \<open>Decimal digits of a natural number, as a template literal prints it.\<close>

fun digits_rev :: "nat \<Rightarrow> nat \<Rightarrow> string" where
  "digits_rev 0 n = []"
| "digits_rev (Suc fuel) n =
     (''0123456789'' ! (n mod 10)) # (if n < 10 then [] else digits_rev fuel (n div 10))"

definition show_nat :: "nat \<Rightarrow> string" where
  "show_nat n = rev (digits_rev (Suc n) n)"

definition show_int :: "int \<Rightarrow> string" where
  "show_int i = (if i < 0 then CHR ''-'' # show_nat (nat (- i)) else show_nat (nat i))"

text \<open>Own properties of a value: the entries \<open>Object.entries\<close> lists for a value that
  is neither \<open>null\<close> nor \<open>undefined\<close>. An array and a string have their indices.\<close>

fun own_entries :: "jsval \<Rightarrow> (string \<times> jsval) list" where
  "own_entries (JObj kvs) = kvs"
| "own_entries (JArr xs) = zip (map show_nat [0..<length xs]) xs"
| "own_entries (JStr s) = zip (map show_nat [0..<length s]) (map (\<lambda>c. JStr [c]) s)"
| "own_entries v = []"

text \<open>\<open>v[k]\<close> on a value that is neither \<open>null\<close> nor \<open>undefined\<close>: a missing
  property reads as \<open>undefined\<close>; arrays and strings also have \<open>length\<close>, which
  the engine keeps far below \<open>2^53\<close>.\<close>

definition read_prop :: "jsval \<Rightarrow> string \<Rightarrow> jsval" where
  "read_prop v k =
     (case map_of (own_entries v) k of
        Some x \<Rightarrow> x
      | None \<Rightarrow>
          (case v of
             JArr xs \<Rightarrow> if k = ''length'' then JNum (of_nat (length xs)) else JUndefined
           | JStr s \<Rightarrow> if k = ''length'' then JNum (of_nat (length s)) else JUndefined
           | _ \<Rightarrow> JUndefined))"

text \<open>\<open>v.k\<close> and \<open>v[k]\<close>: a \<open>TypeError\<close> on \<open>null\<close> and \<open>undefined\<close>.\<close>

definition get_prop :: "jsval \<Rightarrow> string \<Rightarrow> js_error + jsval" where
  "get_prop v k = (if nullish v then Inl (PropertyOfNullish k) else Inr (read_prop v k))"

text \<open>\<open>v?.k\<close> and \<open>v?.[k]\<close>\<close>

definition opt_prop :: "jsval \<Rightarrow> string \<Rightarrow> jsval" where
  "opt_prop v k = (if nullish v then JUndefined else read_prop v k)"

text \<open>\<open>Object.entries(v)\<close>\<close>

definition object_entries :: "jsval \<Rightarrow> js_error + (string \<times> jsval) list" where
  "object_entries v =
     (if nullish v then Inl (PropertyOfNullish ''entries'') else Inr (own_entries v))"

text \<open>Sequencing of computations that may throw.\<close>

definition bind_err :: "'e + 'a \<Rightarrow> ('a \<Rightarrow> 'e + 'b) \<Rightarrow> 'e + 'b" where
  "bind_err m f = (case m of Inl e \<Rightarrow> Inl e | Inr x \<Rightarrow> f x)"

text \<open>\<open>xs.map(f)\<close> for an \<open>f\<close> that may throw: the first exception ends the loop.\<close>

fun map_err :: "('a \<Rightarrow> 'e + 'b) \<Rightarrow> 'a list \<Rightarrow> 'e + 'b list" where
  "map_err f [] = Inr []"
| "map_err f (x # xs) =
     bind_err (f x) (\<lambda>y. bind_err (map_err f xs) (\<lambda>ys. Inr (y # ys)))"

section \<open>Schema normalizer (\<open>ApiClient\<close>)\<close>

record ApiParameter =
  p_name :: jsval
  p_type :: jsval
  p_required :: jsval
  p_description :: jsval
  p_format :: jsval
  p_enum :: jsval
  p_maxLength :: jsval
  p_minLength :: jsval

text \<open>The arrow function that \<open>parseParameters\<close> maps over the array.\<close>

definition parseParameter :: "jsval \<Rightarrow> js_error + ApiParameter" where
  "parseParameter param =
     bind_err (get_prop param ''name'') (\<lambda>nm.
     bind_err (get_prop param ''schema'') (\<lambda>schema.
       Inr \<lparr> p_name = nm,
             p_type = js_or (opt_prop schema ''type'')
                        (js_or (read_prop param ''type'') (JStr ''string'')),
             p_required = js_or (read_prop param ''required'') (JBool False),
             p_description = read_prop param ''description'',
             p_format = js_or (opt_prop schema ''format'') (read_prop param ''format''),
             p_enum = js_or (opt_prop schema ''enum'') (read_prop param ''enum''),
             p_maxLength = js_or (opt_prop schema ''maxLength'') (read_prop param ''maxLength''),
             p_minLength = js_or (opt_prop schema ''minLength'') (read_prop param ''minLength'')
           \<rparr>))"

text \<open>\<open>parseParameters(parameters)\<close>: \<open>parameters.map\<close> exists on arrays only.\<close>

definition parseParameters :: "jsval \<Rightarrow> js_error + ApiParameter list" where
  "parseParameters parameters =
     (case parameters of
        JArr ps \<Rightarrow> map_err parseParameter ps
      | _ \<Rightarrow> if nullish parameters then Inl (PropertyOfNullish ''map'')
             else Inl (NotAFunction ''map''))"

text \<open>String conversion, as \<open>+\<close> with a string operand and template literals
  perform it.\<close>

fun join_with :: "string \<Rightarrow> string list \<Rightarrow> string" where
  "join_with sep [] = []"
| "join_with sep [x] = x"
| "join_with sep (x # y # ys) = x @ sep @ join_with sep (y # ys)"

fun to_string :: "jsval \<Rightarrow> string" where
  "to_string JUndefined = ''undefined''"
| "to_string JNull = ''null''"
| "to_string (JBool b) = (if b then ''true'' else ''false'')"
| "to_string (JNum n) = show_int (sint n)"
| "to_string (JStr s) = s"
| "to_string (JArr xs) =
     join_with '','' (map (\<lambda>x. if nullish x then [] else to_string x) xs)"
| "to_string (JObj kvs) = ''[object Object]''"

text \<open>
  \<open>toLowerCase\<close>, \<open>toUpperCase\<close> and \<open>trim\<close>. The code lowers the keys of a path
  object and raises the tokens of an \<open>Allow\<close> header (a byte string), and compares
  the result with the four method names. No character of a key lowers, and no byte of
  a header raises, to a letter of these names unless it is that ASCII letter in the
  other case, so the conversion of the ASCII letters is all that matters. The blanks
  that \<open>trim\<close> drops are those among the bytes.
\<close>

definition lower_char :: "char \<Rightarrow> char" where
  "lower_char c =
     (case map_of (zip ''ABCDEFGHIJKLMNOPQRSTUVWXYZ'' ''abcdefghijklmnopqrstuvwxyz'') c of
        Some d \<Rightarrow> d
      | None \<Rightarrow> c)"

definition upper_char :: "char \<Rightarrow> char" where
  "upper_char c =
     (case map_of (zip ''abcdefghijklmnopqrstuvwxyz'' ''ABCDEFGHIJKLMNOPQRSTUVWXYZ'') c of
        Some d \<Rightarrow> d
      | None \<Rightarrow> c)"

definition toLowerCase :: "string \<Rightarrow> string" where
  "toLowerCase s = map lower_char s"

definition toUpperCase :: "string \<Rightarrow> string" where
  "toUpperCase s = map upper_char s"

definition is_space :: "char \<Rightarrow> bool" where
  "is_space c =
     (c \<in> set [CHR 0x09, CHR 0x0A, CHR 0x0B, CHR 0x0C, CHR 0x0D, CHR 0x20, CHR 0xA0])"

definition trim :: "string \<Rightarrow> string" where
  "trim s = rev (dropWhile is_space (rev (dropWhile is_space s)))"

text \<open>\<open>s.split(sep)\<close> for a one-character separator: never an empty list.\<close>

fun split_on :: "char \<Rightarrow> string \<Rightarrow> string list" where
  "split_on sep [] = [[]]"
| "split_on sep (c # cs) =
     (if c = sep then [] # split_on sep cs
      else (case split_on sep cs of
              [] \<Rightarrow> [[c]]
            | t # ts \<Rightarrow> (c # t) # ts))"

text \<open>\<open>String.prototype.includes\<close>\<close>

fun is_infix :: "string \<Rightarrow> string \<Rightarrow> bool" where
  "is_infix xs [] = (xs = [])"
| "is_infix xs (y # ys) = (take (length xs) (y # ys) = xs \<or> is_infix xs ys)"

text \<open>
  \<open>obj[k] = v\<close> on an object that the code has built from \<open>{}\<close>, kept as the list
  of its own properties. The key \<open>__proto__\<close> names the prototype of such an object:
  assigning to it adds no own property.
\<close>

fun put_own :: "(string \<times> 'a) list \<Rightarrow> string \<Rightarrow> 'a \<Rightarrow> (string \<times> 'a) list" where
  "put_own [] k v = [(k, v)]"
| "put_own ((k', v') # kvs) k v =
     (if k' = k then (k, v) # kvs else (k', v') # put_own kvs k v)"

definition obj_put :: "(string \<times> 'a) list \<Rightarrow> string \<Rightarrow> 'a \<Rightarrow> (string \<times> 'a) list" where
  "obj_put kvs k v = (if k = ''__proto__'' then kvs else put_own kvs k v)"

text \<open>\<open>xs.forEach(f)\<close> for an \<open>f\<close> that updates an accumulator and may throw.\<close>

fun foreach_err :: "('a \<Rightarrow> 's \<Rightarrow> 'e + 's) \<Rightarrow> 'a list \<Rightarrow> 's \<Rightarrow> 'e + 's" where
  "foreach_err f [] s = Inr s"
| "foreach_err f (x # xs) s = bind_err (f x s) (foreach_err f xs)"

record ApiSchema =
  s_type :: jsval
  s_properties :: "(string \<times> ApiParameter) list"
  s_required :: jsval

record ApiRequestBody =
  contentType :: string
  schema :: ApiSchema

record ApiEndpoint =
  e_method :: string
  e_path :: string
  e_fullUrl :: string
  e_description :: jsval
  e_parameters :: "ApiParameter list"
  e_requestBody :: "ApiRequestBody option"

text \<open>\<open>schema.required?.includes(name)\<close>\<close>

definition required_includes :: "jsval \<Rightarrow> string \<Rightarrow> js_error + jsval" where
  "required_includes req nm =
     (case req of
        JUndefined \<Rightarrow> Inr JUndefined
      | JNull \<Rightarrow> Inr JUndefined
      | JArr xs \<Rightarrow> Inr (JBool (JStr nm \<in> set xs))
      | JStr s \<Rightarrow> Inr (JBool (is_infix nm s))
      | _ \<Rightarrow> Inl (NotAFunction ''includes''))"

text \<open>The body of the \<open>forEach\<close> in \<open>parseSchema\<close>.\<close>

definition parseProperty ::
  "jsval \<Rightarrow> string \<times> jsval \<Rightarrow> (string \<times> ApiParameter) list
     \<Rightarrow> js_error + (string \<times> ApiParameter) list" where
  "parseProperty sch entry properties =
     (case entry of (nm, prop) \<Rightarrow>
        bind_err (get_prop prop ''type'') (\<lambda>t.
        bind_err (required_includes (read_prop sch ''required'') nm) (\<lambda>r.
          Inr (obj_put properties nm
                 \<lparr> p_name = JStr nm,
                   p_type = js_or t (JStr ''string''),
                   p_required = js_or r (JBool False),
                   p_description = read_prop prop ''description'',
                   p_format = read_prop prop ''format'',
                   p_enum = read_prop prop ''enum'',
                   p_maxLength = read_prop prop ''maxLength'',
                   p_minLength = read_prop prop ''minLength'' \<rparr>))))"

text \<open>\<open>parseSchema(schema)\<close>; its only caller passes a truthy \<open>schema\<close>.\<close>

definition parseSchema :: "jsval \<Rightarrow> js_error + ApiSchema" where
  "parseSchema sch =
     bind_err
       (if truthy (read_prop sch ''properties'')
        then foreach_err (parseProperty sch) (own_entries (read_prop sch ''properties'')) []
        else Inr [])
       (\<lambda>properties.
          Inr \<lparr> s_type = js_or (read_prop sch ''type'') (JStr ''object''),
                s_properties = properties,
                s_required = js_or (read_prop sch ''required'') (JArr []) \<rparr>)"

text \<open>\<open>parseRequestBody(requestBody)\<close>; its only caller passes a truthy
  \<open>requestBody\<close>. \<open>None\<close> is the \<open>undefined\<close> it returns without a schema.\<close>

definition parseRequestBody :: "jsval \<Rightarrow> js_error + ApiRequestBody option" where
  "parseRequestBody requestBody =
     (let content = read_prop requestBody ''content'';
          keys = map fst (own_entries (js_or content (JObj [])));
          first_key = (case keys of [] \<Rightarrow> JUndefined | k # _ \<Rightarrow> JStr k);
          ct = to_string (js_or first_key (JStr ''application/json''));
          sch = opt_prop (opt_prop content ct) ''schema''
      in if truthy sch
         then bind_err (parseSchema sch) (\<lambda>s. Inr (Some \<lparr> contentType = ct, schema = s \<rparr>))
         else Inr None)"

text \<open>The body of the inner \<open>forEach\<close> of \<open>parseOpenApiSpec\<close>, for one
  \<open>[method, methodObj]\<close> entry of a path object.\<close>

definition parseOperation ::
  "string \<Rightarrow> jsval \<Rightarrow> string \<Rightarrow> string \<times> jsval \<Rightarrow> ApiEndpoint list
     \<Rightarrow> js_error + ApiEndpoint list" where
  "parseOperation baseUrl basePath path entry endpoints =
     (case entry of (method, methodObj) \<Rightarrow>
        if toLowerCase method \<in> set [''get'', ''post'', ''put'', ''delete'']
        then
          bind_err (get_prop methodObj ''parameters'') (\<lambda>ps.
          bind_err (parseParameters (js_or ps (JArr []))) (\<lambda>parameters.
          bind_err (if truthy (read_prop methodObj ''requestBody'')
                    then parseRequestBody (read_prop methodObj ''requestBody'')
                    else Inr None) (\<lambda>requestBody.
            Inr (endpoints @
                 [\<lparr> e_method = toUpperCase method,
                    e_path = to_string basePath @ path,
                    e_fullUrl = baseUrl @ to_string basePath @ path,
                    e_description =
                      js_or (read_prop methodObj ''summary'')
                        (js_or (read_prop methodObj ''description'')
                           (JStr (toUpperCase method @ '' '' @ path))),
                    e_parameters = parameters,
                    e_requestBody = requestBody \<rparr>]))))
        else Inr endpoints)"

text \<open>The body of the outer \<open>forEach\<close>, for one \<open>[path, pathObj]\<close> entry.\<close>

definition parsePath ::
  "string \<Rightarrow> jsval \<Rightarrow> string \<times> jsval \<Rightarrow> ApiEndpoint list \<Rightarrow> js_error + ApiEndpoint list" where
  "parsePath baseUrl basePath entry endpoints =
     (case entry of (path, pathObj) \<Rightarrow>
        bind_err (object_entries pathObj) (\<lambda>ops.
          foreach_err (parseOperation baseUrl basePath path) ops endpoints))"

definition parseOpenApiSpec :: "string \<Rightarrow> jsval \<Rightarrow> js_error + ApiEndpoint list" where
  "parseOpenApiSpec baseUrl spec =
     bind_err (get_prop spec ''basePath'') (\<lambda>bp.
       let basePath = js_or bp (JStr [])
       in if truthy (read_prop spec ''paths'')
          then foreach_err (parsePath baseUrl basePath) (own_entries (read_prop spec ''paths'')) []
          else Inr [])"

section \<open>HTTP client adapter and endpoint discovery (\<open>ApiClient\<close>)\<close>

text \<open>
  What the code reads of a \<open>Response\<close>: the status line, the \<open>Allow\<close> header
  (\<open>None\<close> when \<open>headers.get\<close> returns \<open>null\<close>) and the outcome of
  \<open>response.json()\<close>, which rejects when the body is not JSON.
\<close>

record http_response =
  r_status :: nat
  r_statusText :: string
  r_allow :: "string option"
  r_json :: "js_error + jsval"

text \<open>\<open>response.ok\<close>\<close>

definition ok :: "http_response \<Rightarrow> bool" where
  "ok response = (200 \<le> r_status response \<and> r_status response \<le> 299)"

text \<open>
  The remote side, as \<open>makeRequest\<close> sees it during discovery: a method and a URL give
  a response, or \<open>fetch\<close> rejects. Each probe of one discovery has its own URL, so a
  function describes any server. A request is logged as its method and URL.
\<close>

type_synonym request = "string \<times> string"
type_synonym network = "string \<Rightarrow> string \<Rightarrow> js_error + http_response"

definition swaggerUrls :: "string \<Rightarrow> string list" where
  "swaggerUrls baseUrl =
     [baseUrl @ ''/swagger.json'',
      baseUrl @ ''/api-docs'',
      baseUrl @ ''/openapi.json'',
      baseUrl @ ''/v2/api-docs'',
      baseUrl @ ''/swagger/v1/swagger.json'']"

definition commonPaths :: "string list" where
  "commonPaths = [''/api/v1'', ''/odata/v4'', ''/rest/v1'', ''/services'', ''/data'']"

text \<open>The body of the \<open>forEach\<close> over the methods of an \<open>Allow\<close> header.\<close>

definition push_method :: "string \<Rightarrow> string \<Rightarrow> string \<Rightarrow> ApiEndpoint list \<Rightarrow> ApiEndpoint list" where
  "push_method baseUrl path method endpoints =
     (if method \<in> set [''GET'', ''POST'', ''PUT'', ''DELETE'']
      then endpoints @
           [\<lparr> e_method = method,
              e_path = path,
              e_fullUrl = baseUrl @ path,
              e_description = JStr (method @ '' endpoint at '' @ path),
              e_parameters = [],
              e_requestBody = None \<rparr>]
      else endpoints)"

text \<open>The \<open>for\<close> loop of \<open>discoverEndpointsManually\<close>, carrying the requests made so
  far and the \<open>endpoints\<close> array. A rejected \<open>fetch\<close> is caught and the loop goes on.\<close>

fun manual_loop ::
  "network \<Rightarrow> string \<Rightarrow> string list \<Rightarrow> request list \<times> ApiEndpoint list
     \<Rightarrow> request list \<times> ApiEndpoint list" where
  "manual_loop net baseUrl [] acc = acc"
| "manual_loop net baseUrl (path # paths) (log, endpoints) =
     manual_loop net baseUrl paths
       (log @ [(''OPTIONS'', baseUrl @ path)],
        (case net ''OPTIONS'' (baseUrl @ path) of
           Inl e \<Rightarrow> endpoints
         | Inr response \<Rightarrow>
             if ok response
             then let allowHeader = (case r_allow response of None \<Rightarrow> [] | Some h \<Rightarrow> h);
                      methods = map (\<lambda>m. toUpperCase (trim m)) (split_on CHR '','' allowHeader)
                  in fold (push_method baseUrl path) methods endpoints
             else endpoints))"

definition discoverEndpointsManually ::
  "network \<Rightarrow> string \<Rightarrow> request list \<Rightarrow> request list \<times> ApiEndpoint list" where
  "discoverEndpointsManually net baseUrl log = manual_loop net baseUrl commonPaths (log, [])"

text \<open>
  The \<open>try\<close> block of the loop of \<open>discoverEndpoints\<close> for one URL: \<open>Inr (Some eps)\<close>
  is \<open>return eps\<close>, \<open>Inr None\<close> falls out of the \<open>if\<close>, \<open>Inl e\<close> is an exception
  of \<open>fetch\<close>, of \<open>response.json()\<close> or of \<open>parseOpenApiSpec\<close>.
\<close>

definition try_doc :: "network \<Rightarrow> string \<Rightarrow> string \<Rightarrow> js_error + ApiEndpoint list option" where
  "try_doc net baseUrl url =
     bind_err (net ''GET'' url) (\<lambda>response.
       if ok response
       then bind_err (r_json response) (\<lambda>spec.
            bind_err (parseOpenApiSpec baseUrl spec) (\<lambda>eps. Inr (Some eps)))
       else Inr None)"

text \<open>The loop over \<open>swaggerUrls\<close>; the \<open>catch\<close> only warns, so an exception and a
  response that is not \<open>ok\<close> both lead to the next URL.\<close>

fun doc_loop ::
  "network \<Rightarrow> string \<Rightarrow> string list \<Rightarrow> request list
     \<Rightarrow> request list \<times> ApiEndpoint list option" where
  "doc_loop net baseUrl [] log = (log, None)"
| "doc_loop net baseUrl (url # urls) log =
     (case try_doc net baseUrl url of
        Inr (Some eps) \<Rightarrow> (log @ [(''GET'', url)], Some eps)
      | Inr None \<Rightarrow> doc_loop net baseUrl urls (log @ [(''GET'', url)])
      | Inl e \<Rightarrow> doc_loop net baseUrl urls (log @ [(''GET'', url)]))"

text \<open>\<open>discoverEndpoints()\<close>: the requests it made, in order, and the endpoints it
  returns.\<close>

definition discoverEndpoints :: "network \<Rightarrow> string \<Rightarrow> request list \<times> ApiEndpoint list" where
  "discoverEndpoints net baseUrl =
     (case doc_loop net baseUrl (swaggerUrls baseUrl) [] of
        (log, Some eps) \<Rightarrow> (log, eps)
      | (log, None) \<Rightarrow> discoverEndpointsManually net baseUrl log)"

section \<open>Mapping validation (\<open>DataMapping\<close>)\<close>

text \<open>
  A mapping holds in \<open>apiField\<close> the \<open>field.name\<close> that the select box of a field
  handed to \<open>handleMappingChange\<close>, whatever value that is. When the name is an object
  or an array, the mapping holds that very object, and \<open>held_of\<close> tells of which field
  (by its place in \<open>apiFields\<close>) it is the name: two fields never share such a name,
  the document being a tree.
\<close>

record FieldMapping =
  spreadsheetColumn :: string
  apiField :: jsval
  held_of :: nat
  transform :: "string option"

text \<open>
  \<open>apiFields\<close>: the parameters, then the properties of the body schema. In
  \<open>{ name, ...field }\<close> the spread comes last, so the field's own \<open>name\<close> stays.
\<close>

definition apiFields :: "ApiEndpoint \<Rightarrow> ApiParameter list" where
  "apiFields selectedEndpoint =
     e_parameters selectedEndpoint @
     (case e_requestBody selectedEndpoint of
        None \<Rightarrow> []
      | Some body \<Rightarrow> map (\<lambda>(nm, field). field) (s_properties (schema body)))"

text \<open>
  \<open>m.apiField === field.name\<close> for the field at place \<open>i\<close> of \<open>apiFields\<close>: equal
  values when the name is a string, a number, a boolean, \<open>null\<close> or \<open>undefined\<close>; the
  same object when it is an object or an array.
\<close>

definition same_name :: "FieldMapping \<Rightarrow> nat \<times> ApiParameter \<Rightarrow> bool" where
  "same_name m entry =
     (case entry of (i, field) \<Rightarrow>
        apiField m = p_name field \<and> (primitive (p_name field) \<or> held_of m = i))"

text \<open>\<open>mappings.find(m => m.apiField === field.name)\<close>\<close>

definition find_mapping :: "FieldMapping list \<Rightarrow> nat \<times> ApiParameter \<Rightarrow> FieldMapping option" where
  "find_mapping mappings entry = find (\<lambda>m. same_name m entry) mappings"

text \<open>
  \<open>handleMappingChange(field.name, spreadsheetColumn)\<close>, as the select box of the field
  at place \<open>i\<close> calls it: the only way in which \<open>mappings\<close> changes.
\<close>

definition handleMappingChange ::
  "nat \<times> ApiParameter \<Rightarrow> string \<Rightarrow> FieldMapping list \<Rightarrow> FieldMapping list" where
  "handleMappingChange entry column prev =
     (case find_mapping prev entry of
        Some existing \<Rightarrow>
          if column = [] then filter (\<lambda>m. \<not> same_name m entry) prev
          else map (\<lambda>m. if same_name m entry then m\<lparr> spreadsheetColumn := column \<rparr> else m) prev
      | None \<Rightarrow>
          if column \<noteq> []
          then prev @ [\<lparr> spreadsheetColumn = column, apiField = p_name (snd entry),
                         held_of = fst entry, transform = Some [] \<rparr>]
          else prev)"

definition not_mapped_message :: "ApiParameter \<Rightarrow> string" where
  "not_mapped_message field =
     ''Required field '' @ [CHR 0x22] @ to_string (p_name field) @ [CHR 0x22] @ '' is not mapped''"

text \<open>The body of the \<open>forEach\<close> in \<open>validateMappings\<close>.\<close>

definition check_field ::
  "FieldMapping list \<Rightarrow> nat \<times> ApiParameter \<Rightarrow> string list \<Rightarrow> string list" where
  "check_field mappings entry errors =
     (case find_mapping mappings entry of
        None \<Rightarrow> errors @ [not_mapped_message (snd entry)]
      | Some m \<Rightarrow> errors)"

text \<open>\<open>validateMappings\<close>; each field goes with its place in \<open>apiFields\<close>, which stands
  for the identity of its name.\<close>

definition validateMappings :: "ApiEndpoint \<Rightarrow> FieldMapping list \<Rightarrow> string list" where
  "validateMappings selectedEndpoint mappings =
     (let requiredFields = filter (\<lambda>(i, field). truthy (p_required field))
                             (enumerate 0 (apiFields selectedEndpoint))
      in fold (check_field mappings) requiredFields [])"

text \<open>\<open>handleComplete\<close>: \<open>Some mappings\<close> is the call \<open>onMappingComplete(mappings)\<close>,
  \<open>None\<close> is no call.\<close>

definition handleComplete :: "ApiEndpoint \<Rightarrow> FieldMapping list \<Rightarrow> FieldMapping list option" where
  "handleComplete selectedEndpoint mappings =
     (if length (validateMappings selectedEndpoint mappings) = 0 then Some mappings else None)"

text \<open>\<open>isValid\<close>, which enables the button that runs \<open>handleComplete\<close>.\<close>

definition isValid :: "ApiEndpoint \<Rightarrow> FieldMapping list \<Rightarrow> bool" where
  "isValid selectedEndpoint mappings =
     (length (validateMappings selectedEndpoint mappings) = 0 \<and> length mappings > 0)"

text \<open>
  A click on the button \<open>Continue to Data Submission\<close>, the only place that runs
  \<open>handleComplete\<close>. The button carries \<open>disabled={!isValid || disabled}\<close>, and a
  disabled button takes no click.
\<close>

definition click_continue ::
  "bool \<Rightarrow> ApiEndpoint \<Rightarrow> FieldMapping list \<Rightarrow> FieldMapping list option" where
  "click_continue disabled selectedEndpoint mappings =
     (if \<not> isValid selectedEndpoint mappings \<or> disabled then None
      else handleComplete selectedEndpoint mappings)"

section \<open>Submission pipeline (\<open>SubmissionResults\<close>)\<close>

datatype submission_status = S_pending | S_success | S_error

text \<open>A field the source leaves out of a result reads as \<open>undefined\<close>.\<close>

record SubmissionResult =
  rowIndex :: nat
  status :: submission_status
  response :: jsval
  error :: "error_text option"
  payload :: jsval

text \<open>
  The state of the component (\<open>results\<close>, \<open>isRunning\<close>, \<open>isPaused\<close>,
  \<open>currentRow\<close>), together with three observations of a run: the calls of
  \<open>apiClient.submitData\<close> (row and payload), the arguments of the calls of
  \<open>onSubmissionComplete\<close>, and every value \<open>results\<close> has taken.
\<close>

record component =
  results :: "SubmissionResult list"
  isRunning :: bool
  isPaused :: bool
  currentRow :: nat
  requests :: "(nat \<times> jsval) list"
  completed :: "SubmissionResult list list"
  history :: "SubmissionResult list list"

text \<open>
  \<open>results\<close>, \<open>isPaused\<close> and \<open>currentRow\<close> are \<open>const\<close> bindings of one call
  of the component function. A handler created by that call reads these bindings for
  as long as it runs; \<open>setResults\<close>, \<open>setIsPaused\<close> and \<open>setCurrentRow\<close> change the
  state of the component, which the next call of the component function reads, and
  leave the bindings as they are. The bindings a handler sees are the state at the
  click that started it.
\<close>

record render =
  seen_results :: "SubmissionResult list"
  seen_isPaused :: bool
  seen_currentRow :: nat

definition render_of :: "component \<Rightarrow> render" where
  "render_of c =
     \<lparr> seen_results = results c, seen_isPaused = isPaused c, seen_currentRow = currentRow c \<rparr>"

text \<open>\<open>setResults(prev => f(prev))\<close>\<close>

definition setResults ::
  "(SubmissionResult list \<Rightarrow> SubmissionResult list) \<Rightarrow> component \<Rightarrow> component" where
  "setResults f c = c\<lparr> results := f (results c), history := history c @ [f (results c)] \<rparr>"

text \<open>\<open>prev.map(r => r.rowIndex === i ? g(r) : r)\<close>\<close>

definition update_row ::
  "nat \<Rightarrow> (SubmissionResult \<Rightarrow> SubmissionResult) \<Rightarrow> SubmissionResult list \<Rightarrow> SubmissionResult list" where
  "update_row i g prev = map (\<lambda>r. if rowIndex r = i then g r else r) prev"

definition initialResults :: "(string \<times> jsval) list list \<Rightarrow> SubmissionResult list" where
  "initialResults rows =
     map (\<lambda>index. \<lparr> rowIndex = index, status = S_pending, response = JUndefined,
                    error = None, payload = JUndefined \<rparr>)
       [0..<length rows]"

text \<open>The component once its effect has run on the spreadsheet: before that no button
  has been clicked.\<close>

definition mounted :: "(string \<times> jsval) list list \<Rightarrow> component" where
  "mounted rows =
     \<lparr> results = initialResults rows, isRunning = False, isPaused = False, currentRow = 0,
       requests = [], completed = [], history = [initialResults rows] \<rparr>"

text \<open>\<open>spreadsheetData.rows[rowIndex]\<close>: \<open>undefined\<close> past the end.\<close>

definition row_at :: "(string \<times> jsval) list list \<Rightarrow> nat \<Rightarrow> jsval" where
  "row_at rows i = (if i < length rows then JObj (rows ! i) else JUndefined)"

text \<open>The body of the \<open>forEach\<close> in \<open>generatePayload\<close>; \<open>payload[mapping.apiField]\<close>
  takes the string of \<open>apiField\<close> as the key.\<close>

definition put_mapping ::
  "jsval \<Rightarrow> FieldMapping \<Rightarrow> (string \<times> jsval) list \<Rightarrow> js_error + (string \<times> jsval) list" where
  "put_mapping row mapping pl =
     bind_err (get_prop row (spreadsheetColumn mapping)) (\<lambda>v.
       Inr (obj_put pl (to_string (apiField mapping)) v))"

definition generatePayload ::
  "(string \<times> jsval) list list \<Rightarrow> FieldMapping list \<Rightarrow> nat \<Rightarrow> js_error + jsval" where
  "generatePayload rows mappings i =
     bind_err (foreach_err (put_mapping (row_at rows i)) mappings []) (\<lambda>pl. Inr (JObj pl))"

text \<open>
  The server, as \<open>submitData\<close> sees it: the n-th request of the session is answered
  with a response, or \<open>fetch\<close> rejects.
\<close>

type_synonym server = "nat \<Rightarrow> js_error + http_response"

definition http_error_text :: "http_response \<Rightarrow> error_text" where
  "http_error_text r =
     Literal (''HTTP '' @ show_nat (r_status r) @ '': '' @ r_statusText r)"

text \<open>\<open>submitRow(rowIndex)\<close>. \<open>generatePayload\<close> runs before the \<open>try\<close>, so its
  exception leaves \<open>submitRow\<close>; those of \<open>submitData\<close> and \<open>response.json()\<close> are
  caught.\<close>

definition submitRow ::
  "(string \<times> jsval) list list \<Rightarrow> FieldMapping list \<Rightarrow> server \<Rightarrow> nat \<Rightarrow> component
     \<Rightarrow> js_error + component" where
  "submitRow rows mappings srv i c =
     bind_err (generatePayload rows mappings i) (\<lambda>pl.
       let c1 = setResults (update_row i (\<lambda>r. r\<lparr> status := S_pending, payload := pl \<rparr>)) c;
           answer = srv (length (requests c1));
           c2 = c1\<lparr> requests := requests c1 @ [(i, pl)] \<rparr>
       in Inr
           (case bind_err answer (\<lambda>resp.
                   bind_err (if ok resp then r_json resp else Inr JNull) (\<lambda>responseData.
                     Inr (resp, responseData))) of
              Inr (resp, responseData) \<Rightarrow>
                setResults
                  (update_row i (\<lambda>r. r\<lparr> status := (if ok resp then S_success else S_error),
                                           response := responseData,
                                           error := (if ok resp then None
                                                     else Some (http_error_text resp)) \<rparr>))
                  c2
            | Inl e \<Rightarrow>
                setResults
                  (update_row i (\<lambda>r. r\<lparr> status := S_error, error := Some (MessageOf e) \<rparr>))
                  c2))"

definition pauseSubmission :: "component \<Rightarrow> component" where
  "pauseSubmission c = c\<lparr> isPaused := True, isRunning := False \<rparr>"

definition resetSubmission :: "(string \<times> jsval) list list \<Rightarrow> component \<Rightarrow> component" where
  "resetSubmission rows c =
     setResults (\<lambda>prev. initialResults rows)
       (c\<lparr> isRunning := False, isPaused := False, currentRow := 0 \<rparr>)"

text \<open>
  The \<open>for\<close> loop of \<open>startSubmission\<close> over the remaining values of \<open>i\<close>. The
  handler \<open>h\<close> holds the bindings of the click; \<open>pauses i\<close> tells whether the user
  clicks Pause while the loop awaits the request and the delay of row \<open>i\<close>.
\<close>

fun submission_loop ::
  "(string \<times> jsval) list list \<Rightarrow> FieldMapping list \<Rightarrow> server \<Rightarrow> (nat \<Rightarrow> bool) \<Rightarrow> render
     \<Rightarrow> nat list \<Rightarrow> component \<Rightarrow> js_error + component" where
  "submission_loop rows mappings srv pauses h [] c = Inr c"
| "submission_loop rows mappings srv pauses h (i # rest) c =
     (if seen_isPaused h then Inr c
      else bind_err (submitRow rows mappings srv i (c\<lparr> currentRow := i \<rparr>)) (\<lambda>c'.
             submission_loop rows mappings srv pauses h rest
               (if pauses i then pauseSubmission c' else c')))"

definition startSubmission ::
  "(string \<times> jsval) list list \<Rightarrow> FieldMapping list \<Rightarrow> server \<Rightarrow> (nat \<Rightarrow> bool) \<Rightarrow> render
     \<Rightarrow> component \<Rightarrow> js_error + component" where
  "startSubmission rows mappings srv pauses h c =
     bind_err
       (submission_loop rows mappings srv pauses h [seen_currentRow h..<length rows]
          (c\<lparr> isRunning := True, isPaused := False \<rparr>))
       (\<lambda>c'. let c'' = c'\<lparr> isRunning := False \<rparr>
             in Inr (if int (seen_currentRow h) \<ge> int (length rows) - 1
                     then c''\<lparr> completed := completed c'' @ [seen_results h] \<rparr>
                     else c''))"

text \<open>A click on Start or Resume runs the handler of the render on screen.\<close>

definition click_start ::
  "(string \<times> jsval) list list \<Rightarrow> FieldMapping list \<Rightarrow> server \<Rightarrow> (nat \<Rightarrow> bool) \<Rightarrow> component
     \<Rightarrow> js_error + component" where
  "click_start rows mappings srv pauses c =
     startSubmission rows mappings srv pauses (render_of c) c"

section \<open>Verification pipeline (\<open>DataVerification\<close>)\<close>

datatype verification_status = V_verified | V_mismatch | V_not_found | V_error

record VerificationResult =
  v_rowIndex :: nat
  submitted :: jsval
  retrieved :: jsval
  v_status :: verification_status
  v_error :: "error_text option"

text \<open>The state of the component and the URLs of the calls of \<open>verifyData\<close>.\<close>

record verifier =
  verificationResults :: "VerificationResult list"
  isVerifying :: bool
  gets :: "string list"

text \<open>
  \<open>a === b\<close>. One side comes out of \<open>response.json()\<close>, the other out of the
  spreadsheet: an object or an array on either side is never the same object.
\<close>

definition strict_eq :: "jsval \<Rightarrow> jsval \<Rightarrow> bool" where
  "strict_eq a b = (primitive a \<and> a = b)"

text \<open>The loop of \<open>compareData\<close> over \<open>Object.entries(submitted)\<close>.\<close>

fun compare_loop :: "(string \<times> jsval) list \<Rightarrow> jsval \<Rightarrow> js_error + bool" where
  "compare_loop [] retr = Inr True"
| "compare_loop ((key, val) # rest) retr =
     bind_err (get_prop retr key) (\<lambda>x.
       if \<not> strict_eq x val then Inr False else compare_loop rest retr)"

definition compareData :: "jsval \<Rightarrow> jsval \<Rightarrow> js_error + bool" where
  "compareData subm retr = bind_err (object_entries subm) (\<lambda>es. compare_loop es retr)"

definition successfulSubmissions :: "SubmissionResult list \<Rightarrow> SubmissionResult list" where
  "successfulSubmissions submissionResults = filter (\<lambda>r. status r = S_success) submissionResults"

definition initializeVerification :: "SubmissionResult list \<Rightarrow> VerificationResult list" where
  "initializeVerification submissionResults =
     map (\<lambda>r. \<lparr> v_rowIndex = rowIndex r, submitted = payload r, retrieved = JUndefined,
                v_status = V_error, v_error = Some (Literal ''Verification not started'') \<rparr>)
       (successfulSubmissions submissionResults)"

text \<open>\<open>setVerificationResults(prev => prev.map(r => r.rowIndex === i ? g(r) : r))\<close>\<close>

definition update_verification ::
  "nat \<Rightarrow> (VerificationResult \<Rightarrow> VerificationResult) \<Rightarrow> verifier \<Rightarrow> verifier" where
  "update_verification i g v =
     v\<lparr> verificationResults :=
          map (\<lambda>r. if v_rowIndex r = i then g r else r) (verificationResults v) \<rparr>"

text \<open>\<open>result.response?.id || result.response?.ID || result.payload?.id\<close>\<close>

definition identifier_of :: "SubmissionResult \<Rightarrow> jsval" where
  "identifier_of result =
     js_or (opt_prop (response result) ''id'')
       (js_or (opt_prop (response result) ''ID'') (opt_prop (payload result) ''id''))"

text \<open>
  The server, as \<open>verifyData\<close> sees it: the answer to the n-th verification request,
  made to the given URL.
\<close>

type_synonym verify_server = "nat \<Rightarrow> string \<Rightarrow> js_error + http_response"

text \<open>The body of the \<open>for\<close> loop of \<open>startVerification\<close> for one successful
  submission.\<close>

definition verify_one :: "string \<Rightarrow> verify_server \<Rightarrow> SubmissionResult \<Rightarrow> verifier \<Rightarrow> verifier" where
  "verify_one getEndpointUrl srv result v =
     (let identifier = identifier_of result
      in if \<not> truthy identifier
         then update_verification (rowIndex result)
                (\<lambda>r. r\<lparr> v_status := V_error,
                         v_error := Some (Literal ''No identifier found in response'') \<rparr>) v
         else
           let url = getEndpointUrl @ ''/'' @ to_string identifier;
               answer = srv (length (gets v)) url;
               v1 = v\<lparr> gets := gets v @ [url] \<rparr>
           in (case bind_err answer (\<lambda>verifyResponse.
                       if ok verifyResponse
                       then bind_err (r_json verifyResponse) (\<lambda>retrievedData.
                            bind_err (compareData (payload result) retrievedData) (\<lambda>isMatch.
                              Inr (update_verification (rowIndex result)
                                     (\<lambda>r. r\<lparr> v_status := (if isMatch then V_verified else V_mismatch),
                                              retrieved := retrievedData,
                                              v_error := None \<rparr>) v1)))
                       else if r_status verifyResponse = 404
                       then Inr (update_verification (rowIndex result)
                                   (\<lambda>r. r\<lparr> v_status := V_not_found,
                                            v_error := Some (Literal ''Record not found'') \<rparr>) v1)
                       else Inr (update_verification (rowIndex result)
                                   (\<lambda>r. r\<lparr> v_status := V_error,
                                            v_error := Some (http_error_text verifyResponse) \<rparr>) v1)) of
                 Inr v2 \<Rightarrow> v2
               | Inl e \<Rightarrow>
                   update_verification (rowIndex result)
                     (\<lambda>r. r\<lparr> v_status := V_error, v_error := Some (MessageOf e) \<rparr>) v1))"

text \<open>\<open>startVerification\<close>; \<open>getEndpointUrl\<close> is \<open>None\<close> when the property is
  \<open>undefined\<close>, and the empty string is falsy as well.\<close>

definition startVerification ::
  "string option \<Rightarrow> verify_server \<Rightarrow> SubmissionResult list \<Rightarrow> verifier \<Rightarrow> verifier" where
  "startVerification getEndpointUrl srv submissionResults v =
     (case getEndpointUrl of
        None \<Rightarrow>
          v\<lparr> verificationResults :=
               map (\<lambda>r. r\<lparr> v_status := V_error,
                           v_error := Some (Literal ''No GET endpoint provided for verification'') \<rparr>)
                 (verificationResults v) \<rparr>
      | Some url \<Rightarrow>
          if url = []
          then v\<lparr> verificationResults :=
                    map (\<lambda>r. r\<lparr> v_status := V_error,
                                v_error := Some (Literal ''No GET endpoint provided for verification'') \<rparr>)
                      (verificationResults v) \<rparr>
          else (fold (verify_one url srv) (successfulSubmissions submissionResults)
                  (v\<lparr> isVerifying := True \<rparr>))\<lparr> isVerifying := False \<rparr>)"

section \<open>Notions of the specification\<close>

subsection \<open>Normalizer\<close>

text \<open>\<open>a ?? b\<close>, which the specification uses to state the rule of the normalizer.\<close>

definition nullish_or :: "jsval \<Rightarrow> jsval \<Rightarrow> jsval" where
  "nullish_or a b = (if nullish a then b else a)"

text \<open>The value nested under the \<open>schema\<close> of a parameter object.\<close>

definition nested :: "jsval \<Rightarrow> string \<Rightarrow> jsval" where
  "nested param k = opt_prop (read_prop param ''schema'') k"

text \<open>The rule as the specification writes it: \<open>schema.type ?? type ?? 'string'\<close>, and
  \<open>schema.k ?? k\<close> for the other constraints.\<close>

definition claimed_type :: "jsval \<Rightarrow> jsval" where
  "claimed_type param =
     nullish_or (nested param ''type'') (nullish_or (read_prop param ''type'') (JStr ''string''))"

definition claimed_constraint :: "jsval \<Rightarrow> string \<Rightarrow> jsval" where
  "claimed_constraint param k = nullish_or (nested param k) (read_prop param k)"

text \<open>A value that is there but falsy: \<open>0\<close>, the empty string, \<open>false\<close>.\<close>

definition present_falsy :: "jsval \<Rightarrow> bool" where
  "present_falsy v = (\<not> nullish v \<and> \<not> truthy v)"

text \<open>The first of two values that is truthy, and the second when neither is.\<close>

definition first_truthy :: "jsval \<Rightarrow> jsval \<Rightarrow> jsval" where
  "first_truthy a b = (if truthy a then a else b)"

text \<open>
  A normalized parameter \<open>p\<close> follows the amended rule for the parameter object
  \<open>param\<close>: each constraint is the nested value when that is truthy and the flat value
  otherwise, the type being \<open>"string"\<close> when neither is truthy; and this is the rule
  of the specification wherever no value that is present and falsy stands in the way.
\<close>

definition follows_rule :: "jsval \<Rightarrow> ApiParameter \<Rightarrow> bool" where
  "follows_rule param p =
     (p_type p = first_truthy (nested param ''type'')
                   (first_truthy (read_prop param ''type'') (JStr ''string''))
      \<and> p_format p = first_truthy (nested param ''format'') (read_prop param ''format'')
      \<and> p_enum p = first_truthy (nested param ''enum'') (read_prop param ''enum'')
      \<and> p_maxLength p = first_truthy (nested param ''maxLength'') (read_prop param ''maxLength'')
      \<and> p_minLength p = first_truthy (nested param ''minLength'') (read_prop param ''minLength'')
      \<and> (\<not> present_falsy (nested param ''type'') \<and> \<not> present_falsy (read_prop param ''type'')
         \<longrightarrow> p_type p = claimed_type param)
      \<and> (\<not> present_falsy (nested param ''format'')
         \<longrightarrow> p_format p = claimed_constraint param ''format'')
      \<and> (\<not> present_falsy (nested param ''enum'')
         \<longrightarrow> p_enum p = claimed_constraint param ''enum'')
      \<and> (\<not> present_falsy (nested param ''maxLength'')
         \<longrightarrow> p_maxLength p = claimed_constraint param ''maxLength'')
      \<and> (\<not> present_falsy (nested param ''minLength'')
         \<longrightarrow> p_minLength p = claimed_constraint param ''minLength''))"

subsection \<open>Discovery\<close>

text \<open>A documentation probe fails: \<open>fetch\<close> rejects, or the status is not a
  successful one.\<close>

definition probe_fails :: "network \<Rightarrow> string \<Rightarrow> bool" where
  "probe_fails net url = (case net ''GET'' url of Inl e \<Rightarrow> True | Inr r \<Rightarrow> \<not> ok r)"

text \<open>The endpoints of the document served at a URL, when the response is successful,
  its body is JSON and the normalizer accepts it.\<close>

definition document_at :: "network \<Rightarrow> string \<Rightarrow> string \<Rightarrow> ApiEndpoint list option" where
  "document_at net baseUrl url =
     (case net ''GET'' url of
        Inl e \<Rightarrow> None
      | Inr r \<Rightarrow>
          if ok r
          then (case r_json r of
                  Inl e \<Rightarrow> None
                | Inr spec \<Rightarrow>
                    (case parseOpenApiSpec baseUrl spec of Inl e \<Rightarrow> None | Inr eps \<Rightarrow> Some eps))
          else None)"

text \<open>The tokens of the comma-split \<open>Allow\<close> header of a response.\<close>

definition allow_tokens :: "http_response \<Rightarrow> string list" where
  "allow_tokens r = split_on CHR '','' (case r_allow r of None \<Rightarrow> [] | Some h \<Rightarrow> h)"

text \<open>A token names one of the four methods, whatever its case and the blanks around
  it.\<close>

definition matches_method :: "string \<Rightarrow> bool" where
  "matches_method token = (toUpperCase (trim token) \<in> {''GET'', ''POST'', ''PUT'', ''DELETE''})"

text \<open>The endpoint synthesized for a token that names a method.\<close>

definition synthesized :: "string \<Rightarrow> string \<Rightarrow> string \<Rightarrow> ApiEndpoint" where
  "synthesized baseUrl path token =
     \<lparr> e_method = toUpperCase (trim token),
       e_path = path,
       e_fullUrl = baseUrl @ path,
       e_description = JStr (toUpperCase (trim token) @ '' endpoint at '' @ path),
       e_parameters = [],
       e_requestBody = None \<rparr>"

text \<open>The endpoints the heuristic owes to one conventional path.\<close>

definition endpoints_at :: "network \<Rightarrow> string \<Rightarrow> string \<Rightarrow> ApiEndpoint list" where
  "endpoints_at net baseUrl path =
     (case net ''OPTIONS'' (baseUrl @ path) of
        Inl e \<Rightarrow> []
      | Inr r \<Rightarrow>
          if ok r then map (synthesized baseUrl path) (filter matches_method (allow_tokens r))
          else [])"

subsection \<open>Mapping\<close>

text \<open>A field, at its place in the list of the endpoint's fields, has a mapping.\<close>

definition is_mapped :: "FieldMapping list \<Rightarrow> nat \<times> ApiParameter \<Rightarrow> bool" where
  "is_mapped mappings entry = (\<exists>m \<in> set mappings. same_name m entry)"

text \<open>The required fields of an endpoint, each with its place: its required parameters,
  then the required properties of its body schema.\<close>

definition required_fields :: "ApiEndpoint \<Rightarrow> (nat \<times> ApiParameter) list" where
  "required_fields ep =
     filter (\<lambda>(i, f). truthy (p_required f)) (enumerate 0 (e_parameters ep)) @
     (case e_requestBody ep of
        None \<Rightarrow> []
      | Some body \<Rightarrow>
          filter (\<lambda>(i, f). truthy (p_required f))
            (enumerate (length (e_parameters ep)) (map snd (s_properties (schema body)))))"

subsection \<open>Submission\<close>

text \<open>For \<open>n\<close> rows there are exactly \<open>n\<close> results, with the row indices
  \<open>0..n-1\<close>, each once.\<close>

definition well_indexed :: "nat \<Rightarrow> SubmissionResult list \<Rightarrow> bool" where
  "well_indexed n rs = (map rowIndex rs = [0..<n])"

text \<open>A result that is no longer pending.\<close>

definition settled :: "SubmissionResult \<Rightarrow> bool" where
  "settled r = (status r = S_success \<or> status r = S_error)"

text \<open>The result table is well indexed now and has been at every point so far.\<close>

definition table_ok :: "(string \<times> jsval) list list \<Rightarrow> component \<Rightarrow> bool" where
  "table_ok rows c =
     ((\<forall>rs \<in> set (history c). well_indexed (length rows) rs)
      \<and> well_indexed (length rows) (results c))"

subsection \<open>Verification\<close>

text \<open>Every key of the submitted payload has, in the retrieved body, a value strictly
  equal to the submitted one.\<close>

definition all_keys_equal :: "jsval \<Rightarrow> jsval \<Rightarrow> bool" where
  "all_keys_equal subm retr =
     (\<forall>(k, v) \<in> set (own_entries subm). strict_eq (read_prop retr k) v)"

text \<open>The URL of the verification request for a submission.\<close>

definition verify_url :: "string \<Rightarrow> SubmissionResult \<Rightarrow> string" where
  "verify_url getEndpointUrl result = getEndpointUrl @ ''/'' @ to_string (identifier_of result)"

text \<open>The result of a row is set to a status, a retrieved body and an error text; the
  results of the other rows stay.\<close>

definition row_marked ::
  "nat \<Rightarrow> verification_status \<Rightarrow> jsval option \<Rightarrow> error_text option
     \<Rightarrow> VerificationResult list \<Rightarrow> VerificationResult list" where
  "row_marked i st body err rs =
     map (\<lambda>r. if v_rowIndex r = i
               then r\<lparr> v_status := st,
                       retrieved := (case body of None \<Rightarrow> retrieved r | Some b \<Rightarrow> b),
                       v_error := err \<rparr>
               else r) rs"

section \<open>Examples\<close>

text \<open>A host that answers \<open>/swagger.json\<close> with status 200 and a body that is not
  JSON, and nothing else.\<close>

definition html_at_first :: network where
  "html_at_first method url =
     (if method = ''GET'' \<and> url = ''http://h/swagger.json''
      then Inr \<lparr> r_status = 200, r_statusText = ''OK'', r_allow = None,
                 r_json = Inl (JsonSyntax ''Unexpected token'') \<rparr>
      else Inl (FetchFailed ''Failed to fetch''))"

text \<open>A host that serves a document at \<open>/openapi.json\<close>, the third URL, only.\<close>

definition only_third :: network where
  "only_third method url =
     (if method = ''GET'' \<and> url = ''http://h/openapi.json''
      then Inr \<lparr> r_status = 200, r_statusText = ''OK'', r_allow = None,
                 r_json = Inr (JObj [(''paths'',
                            JObj [(''/users'', JObj [(''get'', JObj [])])])]) \<rparr>
      else Inl (FetchFailed ''Failed to fetch''))"

text \<open>A host without documentation that answers \<open>OPTIONS\<close> on \<open>/api/v1\<close> with an
  \<open>Allow\<close> header, on \<open>/data\<close> without one, and on \<open>/services\<close> with status 404.\<close>

definition options_only :: network where
  "options_only method url =
     (if method = ''OPTIONS'' \<and> url = ''http://h/api/v1''
      then Inr \<lparr> r_status = 200, r_statusText = ''OK'', r_allow = Some ''GET, post ,PATCH'',
                 r_json = Inl (JsonSyntax ''Unexpected end of JSON input'') \<rparr>
      else if method = ''OPTIONS'' \<and> url = ''http://h/data''
      then Inr \<lparr> r_status = 204, r_statusText = ''No Content'', r_allow = None,
                 r_json = Inl (JsonSyntax ''Unexpected end of JSON input'') \<rparr>
      else if url = ''http://h/services''
      then Inr \<lparr> r_status = 404, r_statusText = ''Not Found'', r_allow = None,
                 r_json = Inl (JsonSyntax ''Unexpected end of JSON input'') \<rparr>
      else Inl (FetchFailed ''Failed to fetch''))"

text \<open>A string field with nothing but a name and its required flag.\<close>

definition plain_field :: "string \<Rightarrow> bool \<Rightarrow> ApiParameter" where
  "plain_field nm req =
     \<lparr> p_name = JStr nm, p_type = JStr ''string'', p_required = JBool req,
       p_description = JUndefined, p_format = JUndefined, p_enum = JUndefined,
       p_maxLength = JUndefined, p_minLength = JUndefined \<rparr>"

text \<open>\<open>POST /users\<close> with an optional query parameter and a body whose \<open>email\<close> is
  required and whose \<open>name\<close> is not.\<close>

definition post_users :: ApiEndpoint where
  "post_users =
     \<lparr> e_method = ''POST'', e_path = ''/users'', e_fullUrl = ''http://h/users'',
       e_description = JStr ''Create a user'',
       e_parameters = [plain_field ''dryRun'' False],
       e_requestBody =
         Some \<lparr> contentType = ''application/json'',
                schema = \<lparr> s_type = JStr ''object'',
                           s_properties = [(''email'', plain_field ''email'' True),
                                           (''name'', plain_field ''name'' False)],
                           s_required = JArr [JStr ''email''] \<rparr> \<rparr> \<rparr>"

text \<open>An endpoint as the heuristic discovery synthesizes it: no parameters, no body.\<close>

definition get_api_v1 :: ApiEndpoint where
  "get_api_v1 =
     \<lparr> e_method = ''GET'', e_path = ''/api/v1'', e_fullUrl = ''http://h/api/v1'',
       e_description = JStr ''GET endpoint at /api/v1'', e_parameters = [],
       e_requestBody = None \<rparr>"

text \<open>A required parameter whose name is the number \<open>5\<close>, and an endpoint with this
  parameter only.\<close>

definition field_5 :: ApiParameter where
  "field_5 =
     \<lparr> p_name = JNum 5, p_type = JStr ''string'', p_required = JBool True,
       p_description = JUndefined, p_format = JUndefined, p_enum = JUndefined,
       p_maxLength = JUndefined, p_minLength = JUndefined \<rparr>"

definition numbered :: ApiEndpoint where
  "numbered =
     \<lparr> e_method = ''GET'', e_path = ''/items'', e_fullUrl = ''http://h/items'',
       e_description = JStr ''GET /items'', e_parameters = [field_5], e_requestBody = None \<rparr>"

text \<open>The mapping that choosing the column \<open>email\<close> for the field \<open>email\<close> of
  \<open>post_users\<close> makes.\<close>

definition email_mapping :: FieldMapping where
  "email_mapping =
     \<lparr> spreadsheetColumn = ''email'', apiField = JStr ''email'', held_of = 1,
       transform = Some [] \<rparr>"

text \<open>Spreadsheets of two and of three rows with the one column \<open>email\<close>.\<close>

definition two_rows :: "(string \<times> jsval) list list" where
  "two_rows = [[(''email'', JStr ''a@x.org'')], [(''email'', JStr ''b@x.org'')]]"

definition three_rows :: "(string \<times> jsval) list list" where
  "three_rows =
     [[(''email'', JStr ''a@x.org'')], [(''email'', JStr ''b@x.org'')],
      [(''email'', JStr ''c@x.org'')]]"

text \<open>A server that stores every submission and answers with the new record's id.\<close>

definition accepting :: server where
  "accepting n =
     Inr \<lparr> r_status = 201, r_statusText = ''Created'', r_allow = None,
           r_json = Inr (JObj [(''id'', JNum (of_nat n + 1))]) \<rparr>"

text \<open>A successful submission of row 0 with payload \<open>{a: 1, b: 2}\<close> and a given
  response.\<close>

definition submitted_ab :: "jsval \<Rightarrow> SubmissionResult" where
  "submitted_ab resp =
     \<lparr> rowIndex = 0, status = S_success, response = resp, error = None,
       payload = JObj [(''a'', JNum 1), (''b'', JNum 2)] \<rparr>"

text \<open>The verification component as it starts on that submission.\<close>

definition fresh_verifier :: "jsval \<Rightarrow> verifier" where
  "fresh_verifier resp =
     \<lparr> verificationResults = initializeVerification [submitted_ab resp],
       isVerifying = False, gets = [] \<rparr>"

text \<open>Servers that give every verification request the same answer: a JSON body with
  status 200, or a bare status.\<close>

definition answers_json :: "jsval \<Rightarrow> verify_server" where
  "answers_json body n url =
     Inr \<lparr> r_status = 200, r_statusText = ''OK'', r_allow = None, r_json = Inr body \<rparr>"

definition answers_status :: "nat \<Rightarrow> string \<Rightarrow> verify_server" where
  "answers_status code phrase n url =
     Inr \<lparr> r_status = code, r_statusText = phrase, r_allow = None,
           r_json = Inl (JsonSyntax ''Unexpected end of JSON input'') \<rparr>"

section \<open>Properties of the schema normalizer\<close>

lemma js_or_nullish_or: "\<not> present_falsy a \<Longrightarrow> js_or a b = nullish_or a b"
  by (cases a) (auto simp: js_or_def nullish_or_def present_falsy_def)

lemma js_or_present_falsy: "present_falsy a \<Longrightarrow> js_or a b = b"
  by (simp add: js_or_def present_falsy_def)

text \<open>
  C1, as stated, fails. A parameter whose \<open>schema\<close> carries \<open>type: ""\<close> and
  \<open>minLength: 0\<close> next to a flat \<open>type: "number"\<close> and \<open>minLength: 3\<close> is normalized
  to type \<open>"number"\<close> and minLength \<open>3\<close>, where \<open>schema.type ?? type ?? 'string'\<close> and
  \<open>schema.minLength ?? minLength\<close> give \<open>""\<close> and \<open>0\<close>.
\<close>

theorem C1_falsy_nested_counterexample:
  "parseParameters
     (JArr [JObj [(''name'', JStr ''q''), (''type'', JStr ''number''), (''minLength'', JNum 3),
                  (''schema'', JObj [(''type'', JStr ''''), (''minLength'', JNum 0)])]])
   = Inr [\<lparr>p_name = JStr ''q'', p_type = JStr ''number'', p_required = JBool False,
           p_description = JUndefined, p_format = JUndefined, p_enum = JUndefined,
           p_maxLength = JUndefined, p_minLength = JNum 3\<rparr>]
   \<and> JStr ''number'' \<noteq>
     claimed_type
       (JObj [(''name'', JStr ''q''), (''type'', JStr ''number''), (''minLength'', JNum 3),
              (''schema'', JObj [(''type'', JStr ''''), (''minLength'', JNum 0)])])
   \<and> JNum 3 \<noteq>
     claimed_constraint
       (JObj [(''name'', JStr ''q''), (''type'', JStr ''number''), (''minLength'', JNum 3),
              (''schema'', JObj [(''type'', JStr ''''), (''minLength'', JNum 0)])]) ''minLength''"
  by (simp add: parseParameters_def parseParameter_def bind_err_def get_prop_def read_prop_def
      opt_prop_def js_or_def claimed_type_def claimed_constraint_def nullish_or_def nested_def)

text \<open>What \<open>parseParameters\<close> makes of one parameter object.\<close>

lemma parseParameter_follows_rule:
  assumes "\<not> nullish param"
  shows "\<exists>p. parseParameter param = Inr p \<and> follows_rule param p"
proof -
  have "parseParameter param =
     Inr \<lparr> p_name = read_prop param ''name'',
           p_type = js_or (nested param ''type'')
                      (js_or (read_prop param ''type'') (JStr ''string'')),
           p_required = js_or (read_prop param ''required'') (JBool False),
           p_description = read_prop param ''description'',
           p_format = js_or (nested param ''format'') (read_prop param ''format''),
           p_enum = js_or (nested param ''enum'') (read_prop param ''enum''),
           p_maxLength = js_or (nested param ''maxLength'') (read_prop param ''maxLength''),
           p_minLength = js_or (nested param ''minLength'') (read_prop param ''minLength'') \<rparr>"
    using assms by (simp add: parseParameter_def bind_err_def get_prop_def nested_def)
  then show ?thesis
    by (simp add: follows_rule_def claimed_type_def claimed_constraint_def js_or_nullish_or)
       (simp add: js_or_def first_truthy_def)
qed

lemma map_err_pointwise:
  assumes "\<forall>x \<in> set xs. \<exists>y. f x = Inr y \<and> P x y"
  shows "\<exists>ys. map_err f xs = Inr ys \<and> length ys = length xs \<and> (\<forall>i < length xs. P (xs ! i) (ys ! i))"
  using assms
proof (induction xs)
  case Nil
  then show ?case by simp
next
  case (Cons x xs)
  then obtain y ys where y: "f x = Inr y" "P x y"
    and ys: "map_err f xs = Inr ys" "length ys = length xs" "\<forall>i < length xs. P (xs ! i) (ys ! i)"
    by auto
  have "map_err f (x # xs) = Inr (y # ys)"
    by (simp add: y(1) ys(1) bind_err_def)
  moreover have "\<forall>i < length (x # xs). P ((x # xs) ! i) ((y # ys) ! i)"
    using y(2) ys(3) by (auto simp: nth_Cons split: nat.splits)
  ultimately show ?case
    using ys(2) by auto
qed

text \<open>
  C1, amended. For every array of parameter objects the normalizer returns one
  parameter per object, and for each of them type, format, enum, maxLength and
  minLength are the value nested under \<open>schema\<close> when that value is truthy and the
  flat value otherwise; the type is the flat type when only that is truthy, and
  \<open>"string"\<close> when neither is (\<open>schema?.type || type || 'string'\<close>). This is
  \<open>schema.type ?? type ?? 'string'\<close> (and \<open>schema.k ?? k\<close> for the other four)
  whenever the nested value, and for the type the flat value too, is absent or truthy.
\<close>

theorem C1_normalized_constraints:
  assumes "\<forall>param \<in> set params. \<not> nullish param"
  shows "\<exists>ps. parseParameters (JArr params) = Inr ps \<and> length ps = length params
     \<and> (\<forall>i < length params. follows_rule (params ! i) (ps ! i))"
proof -
  have "\<forall>param \<in> set params. \<exists>p. parseParameter param = Inr p \<and> follows_rule param p"
    using assms by (simp add: parseParameter_follows_rule)
  then show ?thesis
    unfolding parseParameters_def jsval.case by (rule map_err_pointwise)
qed

theorem C1_normalized_constraints_witness:
  "list_all (\<lambda>param. \<not> nullish param)
     [JObj [(''name'', JStr ''q''), (''type'', JStr ''number''),
            (''schema'', JObj [(''type'', JStr ''string'')])]]
   \<and> map p_type (projr (parseParameters
        (JArr [JObj [(''name'', JStr ''q''), (''type'', JStr ''number''),
                     (''schema'', JObj [(''type'', JStr ''string'')])]])))
     = [JStr ''string'']"
proof -
  let ?p = "JObj [(''name'', JStr ''q''), (''type'', JStr ''number''),
                  (''schema'', JObj [(''type'', JStr ''string'')])]"
  have ok: "\<forall>param \<in> set [?p]. \<not> nullish param" by simp
  have a: "\<not> present_falsy (nested ?p ''type'')" "\<not> present_falsy (read_prop ?p ''type'')"
    and c: "claimed_type ?p = JStr ''string''"
    by (simp_all add: present_falsy_def nested_def read_prop_def opt_prop_def claimed_type_def
        nullish_or_def)
  from C1_normalized_constraints [OF ok]
  obtain ps where ps: "parseParameters (JArr [?p]) = Inr ps" "length ps = length [?p]"
    and rule: "follows_rule ([?p] ! 0) (ps ! 0)"
    by auto
  from rule have "\<not> present_falsy (nested ([?p] ! 0) ''type'')
      \<and> \<not> present_falsy (read_prop ([?p] ! 0) ''type'')
      \<longrightarrow> p_type (ps ! 0) = claimed_type ([?p] ! 0)"
    unfolding follows_rule_def by blast
  with a c have "p_type (ps ! 0) = JStr ''string''"
    by simp
  moreover from ps(2) obtain q where "ps = [q]"
    by (cases ps) auto
  ultimately show ?thesis
    using ps(1) by simp
qed

section \<open>Properties of endpoint discovery\<close>

lemma try_doc_document_at:
  "try_doc net b url = Inr (Some eps) \<longleftrightarrow> document_at net b url = Some eps"
  by (auto simp: try_doc_def document_at_def bind_err_def split: sum.splits if_splits)

lemma doc_loop_none:
  "\<forall>url \<in> set urls. document_at net b url = None \<Longrightarrow>
   doc_loop net b urls log = (log @ map (Pair ''GET'') urls, None)"
proof (induction urls arbitrary: log)
  case Nil
  then show ?case by simp
next
  case (Cons url urls)
  then have "try_doc net b url \<noteq> Inr (Some eps)" for eps
    by (simp add: try_doc_document_at)
  with Cons show ?case
    by (auto split: sum.splits option.splits)
qed

lemma doc_loop_first:
  assumes "i < length urls"
    and "document_at net b (urls ! i) = Some eps"
    and "\<forall>j<i. document_at net b (urls ! j) = None"
  shows "doc_loop net b urls log = (log @ map (Pair ''GET'') (take (Suc i) urls), Some eps)"
  using assms
proof (induction urls arbitrary: i log)
  case Nil
  then show ?case by simp
next
  case (Cons url urls)
  show ?case
  proof (cases i)
    case 0
    with Cons.prems have "try_doc net b url = Inr (Some eps)"
      by (simp add: try_doc_document_at)
    with 0 show ?thesis by simp
  next
    case (Suc k)
    with Cons.prems have none: "document_at net b url = None"
      by auto
    then have no: "try_doc net b url \<noteq> Inr (Some e)" for e
      by (simp add: try_doc_document_at)
    from Suc Cons.prems have k: "k < length urls" "document_at net b (urls ! k) = Some eps"
      "\<forall>j<k. document_at net b (urls ! j) = None"
      by auto
    have "doc_loop net b (url # urls) log = doc_loop net b urls (log @ [(''GET'', url)])"
      using no by (auto split: sum.splits option.splits)
    also have "\<dots> = ((log @ [(''GET'', url)]) @ map (Pair ''GET'') (take (Suc k) urls), Some eps)"
      by (rule Cons.IH [OF k])
    finally show ?thesis using Suc by simp
  qed
qed

lemma fold_push_method:
  "fold (push_method b path) (map (\<lambda>m. toUpperCase (trim m)) tokens) eps =
   eps @ map (synthesized b path) (filter matches_method tokens)"
  by (induction tokens arbitrary: eps)
     (auto simp: push_method_def matches_method_def synthesized_def)

lemma manual_loop_eq:
  "manual_loop net b paths (log, eps) =
   (log @ map (\<lambda>p. (''OPTIONS'', b @ p)) paths, eps @ concat (map (endpoints_at net b) paths))"
proof (induction paths arbitrary: log eps)
  case Nil
  then show ?case by simp
next
  case (Cons p paths)
  show ?case
    by (simp add: Cons.IH endpoints_at_def fold_push_method allow_tokens_def Let_def
        split: sum.splits)
qed

lemma probe_fails_no_document: "probe_fails net url \<Longrightarrow> document_at net b url = None"
  by (auto simp: probe_fails_def document_at_def split: sum.splits)

text \<open>
  C4, as stated, fails. The host \<open>html_at_first\<close> answers the first documentation URL
  with a successful status and a body that is not JSON. \<open>response.json()\<close> rejects, the
  \<open>catch\<close> of the loop takes it, and discovery goes on through the other four URLs and
  the five \<open>OPTIONS\<close> probes of the heuristic: it does not stop at the first successful
  response.
\<close>

theorem C4_unparsable_document_counterexample:
  "html_at_first ''GET'' (swaggerUrls ''http://h'' ! 0)
     = Inr \<lparr> r_status = 200, r_statusText = ''OK'', r_allow = None,
             r_json = Inl (JsonSyntax ''Unexpected token'') \<rparr>
   \<and> ok \<lparr> r_status = 200, r_statusText = ''OK'', r_allow = None,
          r_json = Inl (JsonSyntax ''Unexpected token'') \<rparr>
   \<and> discoverEndpoints html_at_first ''http://h'' =
       ([(''GET'', ''http://h/swagger.json''), (''GET'', ''http://h/api-docs''),
         (''GET'', ''http://h/openapi.json''), (''GET'', ''http://h/v2/api-docs''),
         (''GET'', ''http://h/swagger/v1/swagger.json''),
         (''OPTIONS'', ''http://h/api/v1''), (''OPTIONS'', ''http://h/odata/v4''),
         (''OPTIONS'', ''http://h/rest/v1''), (''OPTIONS'', ''http://h/services''),
         (''OPTIONS'', ''http://h/data'')],
        [])"
  by (simp add: discoverEndpoints_def swaggerUrls_def try_doc_def html_at_first_def ok_def
      bind_err_def discoverEndpointsManually_def commonPaths_def)

text \<open>
  C4, amended. Discovery probes the five documentation URLs in their fixed order with
  \<open>GET\<close> and stops at the first response that has a successful status, a JSON body
  and a document the normalizer accepts: it returns the endpoints of that document,
  having made exactly the probes up to it and no \<open>OPTIONS\<close> request. A response with
  a successful status whose body cannot be parsed or normalized counts as a failed
  probe. With \<open>i = 2\<close>: when only the third URL succeeds, there are exactly three
  probes and no heuristic fallback.
\<close>

theorem C4_first_document_returned:
  assumes "i < 5"
    and "document_at net baseUrl (swaggerUrls baseUrl ! i) = Some eps"
    and "\<forall>j<i. document_at net baseUrl (swaggerUrls baseUrl ! j) = None"
  shows "discoverEndpoints net baseUrl =
           (map (Pair ''GET'') (take (Suc i) (swaggerUrls baseUrl)), eps)
         \<and> swaggerUrls baseUrl =
             map (\<lambda>p. baseUrl @ p)
               [''/swagger.json'', ''/api-docs'', ''/openapi.json'', ''/v2/api-docs'',
                ''/swagger/v1/swagger.json'']"
proof -
  have "i < length (swaggerUrls baseUrl)"
    using assms(1) by (simp add: swaggerUrls_def)
  then have "doc_loop net baseUrl (swaggerUrls baseUrl) [] =
      ([] @ map (Pair ''GET'') (take (Suc i) (swaggerUrls baseUrl)), Some eps)"
    using assms(2,3) by (rule doc_loop_first)
  then show ?thesis
    by (simp add: discoverEndpoints_def swaggerUrls_def)
qed

theorem C4_first_document_returned_witness:
  "document_at only_third ''http://h'' (swaggerUrls ''http://h'' ! 0) = None
   \<and> document_at only_third ''http://h'' (swaggerUrls ''http://h'' ! 1) = None
   \<and> document_at only_third ''http://h'' (swaggerUrls ''http://h'' ! 2)
     = Some [\<lparr> e_method = ''GET'', e_path = ''/users'', e_fullUrl = ''http://h/users'',
               e_description = JStr ''GET /users'', e_parameters = [],
               e_requestBody = None \<rparr>]
   \<and> discoverEndpoints only_third ''http://h'' =
       ([(''GET'', ''http://h/swagger.json''), (''GET'', ''http://h/api-docs''),
         (''GET'', ''http://h/openapi.json'')],
        [\<lparr> e_method = ''GET'', e_path = ''/users'', e_fullUrl = ''http://h/users'',
            e_description = JStr ''GET /users'', e_parameters = [],
            e_requestBody = None \<rparr>])"
proof -
  let ?ep = "\<lparr> e_method = ''GET'', e_path = ''/users'', e_fullUrl = ''http://h/users'',
               e_description = JStr ''GET /users'', e_parameters = [],
               e_requestBody = None \<rparr>"
  have d0: "document_at only_third ''http://h'' (swaggerUrls ''http://h'' ! 0) = None"
    by (simp add: document_at_def only_third_def swaggerUrls_def)
  have d1: "document_at only_third ''http://h'' (swaggerUrls ''http://h'' ! 1) = None"
    by (simp add: document_at_def only_third_def swaggerUrls_def)
  have d2: "document_at only_third ''http://h'' (swaggerUrls ''http://h'' ! 2) = Some [?ep]"
    by (simp add: document_at_def only_third_def swaggerUrls_def ok_def parseOpenApiSpec_def
        parsePath_def parseOperation_def parseParameters_def bind_err_def get_prop_def
        read_prop_def object_entries_def js_or_def toLowerCase_def toUpperCase_def
        lower_char_def upper_char_def)
  have before: "\<forall>j<2. document_at only_third ''http://h'' (swaggerUrls ''http://h'' ! j) = None"
    using d0 d1 by (auto simp: less_2_cases_iff)
  have "(2::nat) < 5" by simp
  from C4_first_document_returned [OF this d2 before] d0 d1 d2
  show ?thesis by (simp add: swaggerUrls_def)
qed

text \<open>
  C5. When every documentation probe fails, discovery sends an \<open>OPTIONS\<close> request to
  each of the five conventional paths, in order and whatever the earlier ones gave. The
  endpoints are, path by path, one for each token of the comma-split \<open>Allow\<close> header
  of a successful response that names \<open>GET\<close>, \<open>POST\<close>, \<open>PUT\<close> or \<open>DELETE\<close>
  (in any case, blanks around it dropped): that method in upper case, the path, no
  parameters, the description \<open>"{METHOD} endpoint at {path}"\<close>. Other tokens, and
  paths that fail, give none.
\<close>

theorem C5_heuristic_probes_all_paths:
  assumes "\<forall>url \<in> set (swaggerUrls baseUrl). probe_fails net url"
  shows "discoverEndpoints net baseUrl =
           (map (Pair ''GET'') (swaggerUrls baseUrl) @
            map (\<lambda>p. (''OPTIONS'', baseUrl @ p))
              [''/api/v1'', ''/odata/v4'', ''/rest/v1'', ''/services'', ''/data''],
            concat (map (endpoints_at net baseUrl)
              [''/api/v1'', ''/odata/v4'', ''/rest/v1'', ''/services'', ''/data'']))"
proof -
  have "\<forall>url \<in> set (swaggerUrls baseUrl). document_at net baseUrl url = None"
    using assms by (simp add: probe_fails_no_document)
  then have "doc_loop net baseUrl (swaggerUrls baseUrl) [] =
      ([] @ map (Pair ''GET'') (swaggerUrls baseUrl), None)"
    by (rule doc_loop_none)
  then show ?thesis
    by (simp add: discoverEndpoints_def discoverEndpointsManually_def manual_loop_eq commonPaths_def)
qed

lemma options_only_endpoints:
  "concat (map (endpoints_at options_only ''http://h'')
     [''/api/v1'', ''/odata/v4'', ''/rest/v1'', ''/services'', ''/data'']) =
   [\<lparr> e_method = ''GET'', e_path = ''/api/v1'', e_fullUrl = ''http://h/api/v1'',
       e_description = JStr ''GET endpoint at /api/v1'', e_parameters = [],
       e_requestBody = None \<rparr>,
    \<lparr> e_method = ''POST'', e_path = ''/api/v1'', e_fullUrl = ''http://h/api/v1'',
       e_description = JStr ''POST endpoint at /api/v1'', e_parameters = [],
       e_requestBody = None \<rparr>]"
  by (simp add: endpoints_at_def options_only_def ok_def allow_tokens_def matches_method_def
      synthesized_def toUpperCase_def upper_char_def trim_def is_space_def)

theorem C5_heuristic_probes_all_paths_witness:
  "list_all (probe_fails options_only) (swaggerUrls ''http://h'')
   \<and> discoverEndpoints options_only ''http://h'' =
       ([(''GET'', ''http://h/swagger.json''), (''GET'', ''http://h/api-docs''),
         (''GET'', ''http://h/openapi.json''), (''GET'', ''http://h/v2/api-docs''),
         (''GET'', ''http://h/swagger/v1/swagger.json''),
         (''OPTIONS'', ''http://h/api/v1''), (''OPTIONS'', ''http://h/odata/v4''),
         (''OPTIONS'', ''http://h/rest/v1''), (''OPTIONS'', ''http://h/services''),
         (''OPTIONS'', ''http://h/data'')],
        [\<lparr> e_method = ''GET'', e_path = ''/api/v1'', e_fullUrl = ''http://h/api/v1'',
            e_description = JStr ''GET endpoint at /api/v1'', e_parameters = [],
            e_requestBody = None \<rparr>,
         \<lparr> e_method = ''POST'', e_path = ''/api/v1'', e_fullUrl = ''http://h/api/v1'',
            e_description = JStr ''POST endpoint at /api/v1'', e_parameters = [],
            e_requestBody = None \<rparr>])"
proof -
  have fails: "\<forall>url \<in> set (swaggerUrls ''http://h''). probe_fails options_only url"
    by (simp add: swaggerUrls_def probe_fails_def options_only_def)
  then have "list_all (probe_fails options_only) (swaggerUrls ''http://h'')"
    by (simp add: list_all_iff)
  with C5_heuristic_probes_all_paths [OF fails] options_only_endpoints show ?thesis
    by (simp add: swaggerUrls_def)
qed

section \<open>Properties of mapping validation\<close>

lemma find_mapping_None: "find_mapping ms e = None \<longleftrightarrow> \<not> is_mapped ms e"
  by (auto simp: find_mapping_def is_mapped_def find_None_iff)

lemma check_field_eq:
  "check_field ms e errors =
   (if is_mapped ms e then errors else errors @ [not_mapped_message (snd e)])"
  using find_mapping_None [of ms e]
  by (cases "find_mapping ms e") (auto simp: check_field_def)

lemma fold_check_field:
  "fold (check_field ms) es errors =
   errors @ map (\<lambda>e. not_mapped_message (snd e)) (filter (\<lambda>e. \<not> is_mapped ms e) es)"
  by (induction es arbitrary: errors) (simp_all add: check_field_eq)

lemma required_apiFields:
  "filter (\<lambda>(i, f). truthy (p_required f)) (enumerate 0 (apiFields ep)) = required_fields ep"
  by (cases "e_requestBody ep")
     (simp_all add: apiFields_def required_fields_def enumerate_append_eq case_prod_unfold)

lemma validateMappings_eq:
  "validateMappings ep ms =
   map (\<lambda>e. not_mapped_message (snd e)) (filter (\<lambda>e. \<not> is_mapped ms e) (required_fields ep))"
  by (simp add: validateMappings_def required_apiFields fold_check_field)

text \<open>Choosing a column for a field maps it, whatever its name is.\<close>

lemma handleMappingChange_maps:
  assumes "column \<noteq> []"
  shows "is_mapped (handleMappingChange e column prev) e"
proof (cases "find_mapping prev e")
  case None
  then show ?thesis
    using assms
    by (cases e) (simp add: handleMappingChange_def is_mapped_def same_name_def)
next
  case (Some existing)
  then have "is_mapped prev e"
    using find_mapping_None [of prev e] by simp
  then obtain m where m: "m \<in> set prev" "same_name m e"
    by (auto simp: is_mapped_def)
  then have "same_name (m\<lparr> spreadsheetColumn := column \<rparr>) e"
    by (simp add: same_name_def)
  with m have "\<exists>m' \<in> set (map (\<lambda>m. if same_name m e then m\<lparr> spreadsheetColumn := column \<rparr> else m) prev).
      same_name m' e"
    by force
  with Some assms show ?thesis
    by (simp add: handleMappingChange_def is_mapped_def)
qed

text \<open>
  C7, as stated, fails. \<open>get_api_v1\<close> is an endpoint as the heuristic discovery
  makes them: it has no field at all. With no mapping, every required field has a
  mapping and there is no validation error, yet the button is disabled and a click on
  it reaches no handler: \<open>onMappingComplete\<close> is not called.
\<close>

theorem C7_no_mapping_counterexample:
  "required_fields get_api_v1 = []
   \<and> validateMappings get_api_v1 [] = []
   \<and> \<not> isValid get_api_v1 []
   \<and> click_continue False get_api_v1 [] = None"
  by (simp add: required_fields_def get_api_v1_def validateMappings_def apiFields_def
      isValid_def click_continue_def)

text \<open>
  C7, amended. Submission cannot start until every required field of the selected
  endpoint, required parameters and required body-schema properties alike, has a
  mapping and at least one mapping exists. For any endpoint and any set of mappings,
  \<open>validateMappings\<close> yields one error for each required field without a mapping, in
  order, each naming its field; and a click on Continue calls \<open>onMappingComplete\<close>
  with the mappings exactly when every required field has a mapping, the set of
  mappings is not empty and the component is not disabled. In every other case the
  click calls nothing.
\<close>

theorem C7_continue_gate:
  "validateMappings ep ms =
     map (\<lambda>e. not_mapped_message (snd e)) (filter (\<lambda>e. \<not> is_mapped ms e) (required_fields ep))
   \<and> (click_continue disabled ep ms = Some ms \<longleftrightarrow>
        (\<forall>e \<in> set (required_fields ep). is_mapped ms e) \<and> ms \<noteq> [] \<and> \<not> disabled)
   \<and> (click_continue disabled ep ms = None \<longleftrightarrow>
        (\<exists>e \<in> set (required_fields ep). \<not> is_mapped ms e) \<or> ms = [] \<or> disabled)"
  by (auto simp: validateMappings_eq click_continue_def handleComplete_def isValid_def
      filter_empty_conv)

theorem C7_continue_gate_witness:
  "required_fields post_users = [(1, plain_field ''email'' True)]
   \<and> validateMappings post_users [] =
       [''Required field '' @ [CHR 0x22] @ ''email'' @ [CHR 0x22] @ '' is not mapped'']
   \<and> click_continue False post_users [] = None
   \<and> handleMappingChange (1, plain_field ''email'' True) ''email'' [] = [email_mapping]
   \<and> click_continue False post_users [email_mapping] = Some [email_mapping]
   \<and> click_continue True post_users [email_mapping] = None
   \<and> required_fields numbered = [(0, field_5)]
   \<and> click_continue False numbered (handleMappingChange (0, field_5) ''email'' [])
       = Some [\<lparr> spreadsheetColumn = ''email'', apiField = JNum 5, held_of = 0,
                   transform = Some [] \<rparr>]"
proof -
  have req: "required_fields post_users = [(1, plain_field ''email'' True)]"
    by (simp add: required_fields_def post_users_def plain_field_def)
  have un: "\<not> is_mapped [] (1, plain_field ''email'' True)"
    by (simp add: is_mapped_def)
  have ma: "is_mapped [email_mapping] (1, plain_field ''email'' True)"
    by (simp add: is_mapped_def email_mapping_def plain_field_def same_name_def)
  have ch: "handleMappingChange (1, plain_field ''email'' True) ''email'' [] = [email_mapping]"
    by (simp add: handleMappingChange_def find_mapping_def email_mapping_def plain_field_def)
  have req5: "required_fields numbered = [(0, field_5)]"
    by (simp add: required_fields_def numbered_def field_5_def)
  have ch5: "handleMappingChange (0, field_5) ''email'' [] =
      [\<lparr> spreadsheetColumn = ''email'', apiField = JNum 5, held_of = 0, transform = Some [] \<rparr>]"
    by (simp add: handleMappingChange_def find_mapping_def field_5_def)
  have ma5: "is_mapped (handleMappingChange (0, field_5) ''email'' []) (0, field_5)"
    by (rule handleMappingChange_maps) simp
  have a: "validateMappings post_users [] =
       [''Required field '' @ [CHR 0x22] @ ''email'' @ [CHR 0x22] @ '' is not mapped'']"
    and b: "click_continue False post_users [] = None"
    using C7_continue_gate [of post_users "[]" False] req un
    by (simp_all add: not_mapped_message_def plain_field_def)
  have c: "click_continue False post_users [email_mapping] = Some [email_mapping]"
    using C7_continue_gate [of post_users "[email_mapping]" False] req ma by simp
  have d: "click_continue True post_users [email_mapping] = None"
    using C7_continue_gate [of post_users "[email_mapping]" True] by simp
  have e: "click_continue False numbered (handleMappingChange (0, field_5) ''email'' []) =
      Some (handleMappingChange (0, field_5) ''email'' [])"
    using C7_continue_gate [of numbered "handleMappingChange (0, field_5) ''email'' []" False]
      req5 ma5 by (simp add: ch5)
  show ?thesis
    using req a b ch c d req5 e by (simp add: ch5)
qed

section \<open>Properties of the verification pipeline\<close>

lemma show_nat_examples:
  "show_nat 5 = ''5''" "show_nat 7 = ''7''" "show_nat 404 = ''404''" "show_nat 500 = ''500''"
  by code_simp+

lemma compare_loop_eq:
  "\<not> nullish retr \<Longrightarrow>
   compare_loop es retr = Inr (\<forall>(k, v) \<in> set es. strict_eq (read_prop retr k) v)"
  by (induction es) (auto simp: bind_err_def get_prop_def)

lemma compareData_eq:
  "\<not> nullish subm \<Longrightarrow> \<not> nullish retr \<Longrightarrow>
   compareData subm retr = Inr (all_keys_equal subm retr)"
  by (simp add: compareData_def object_entries_def bind_err_def compare_loop_eq all_keys_equal_def)

lemma update_verification_results:
  "verificationResults (update_verification i (\<lambda>r. r\<lparr> v_status := st, v_error := err \<rparr>) v)
   = row_marked i st None err (verificationResults v)"
  by (simp add: update_verification_def row_marked_def)

lemma update_verification_results_body:
  "verificationResults
     (update_verification i (\<lambda>r. r\<lparr> v_status := st, retrieved := b, v_error := err \<rparr>) v)
   = row_marked i st (Some b) err (verificationResults v)"
  by (simp add: update_verification_def row_marked_def)

lemma update_verification_gets [simp]:
  "gets (update_verification i g v) = gets v"
  by (simp add: update_verification_def)

text \<open>A field that only the retrieved record has does not change the comparison.\<close>

lemma extra_field_ignored:
  assumes "k \<notin> fst ` set (own_entries subm)"
  shows "all_keys_equal subm (JObj (kvs @ [(k, x)])) = all_keys_equal subm (JObj kvs)"
proof -
  have "read_prop (JObj (kvs @ [(k, x)])) k' = read_prop (JObj kvs) k'"
    if "k' \<in> fst ` set (own_entries subm)" for k'
    using that assms by (auto simp: read_prop_def map_add_def split: option.splits)
  then show ?thesis
    by (force simp: all_keys_equal_def)
qed

text \<open>The step of one row leaves the results of the rows with another index alone.\<close>

lemma update_verification_other_rows:
  assumes "\<And>r. v_rowIndex (g r) = v_rowIndex r"
  shows "filter (\<lambda>r. v_rowIndex r \<noteq> i) (verificationResults (update_verification i g v)) =
         filter (\<lambda>r. v_rowIndex r \<noteq> i) (verificationResults v)"
proof -
  have "filter (\<lambda>r. v_rowIndex r \<noteq> i) (map (\<lambda>r. if v_rowIndex r = i then g r else r) rs) =
        filter (\<lambda>r. v_rowIndex r \<noteq> i) rs" for rs
    by (induction rs) (auto simp: assms)
  then show ?thesis
    by (simp add: update_verification_def)
qed

lemma update_verification_gets_upd:
  "verificationResults (update_verification i g (v\<lparr> gets := l \<rparr>)) =
   verificationResults (update_verification i g v)"
  by (simp add: update_verification_def)

lemma verify_one_other_rows:
  "filter (\<lambda>r. v_rowIndex r \<noteq> rowIndex result)
     (verificationResults (verify_one url srv result v)) =
   filter (\<lambda>r. v_rowIndex r \<noteq> rowIndex result) (verificationResults v)"
  by (simp add: verify_one_def Let_def bind_err_def update_verification_other_rows
      update_verification_gets_upd split: sum.splits)

lemma update_verification_row_kept:
  assumes "\<And>r. v_rowIndex (g r) = v_rowIndex r" and "j \<noteq> i"
  shows "filter (\<lambda>r. v_rowIndex r = i) (verificationResults (update_verification j g v)) =
         filter (\<lambda>r. v_rowIndex r = i) (verificationResults v)"
proof -
  have "filter (\<lambda>r. v_rowIndex r = i) (map (\<lambda>r. if v_rowIndex r = j then g r else r) rs) =
        filter (\<lambda>r. v_rowIndex r = i) rs" for rs
    using assms by (induction rs) auto
  then show ?thesis
    by (simp add: update_verification_def)
qed

lemma verify_one_row_kept:
  "rowIndex result \<noteq> i \<Longrightarrow>
   filter (\<lambda>r. v_rowIndex r = i) (verificationResults (verify_one url srv result v)) =
   filter (\<lambda>r. v_rowIndex r = i) (verificationResults v)"
  by (simp add: verify_one_def Let_def bind_err_def update_verification_row_kept
      update_verification_gets_upd split: sum.splits)

lemma fold_verify_one_row_kept:
  "i \<notin> rowIndex ` set later \<Longrightarrow>
   filter (\<lambda>r. v_rowIndex r = i) (verificationResults (fold (verify_one url srv) later v)) =
   filter (\<lambda>r. v_rowIndex r = i) (verificationResults v)"
  by (induction later arbitrary: v) (simp_all add: verify_one_row_kept)

text \<open>In a whole run of \<open>startVerification\<close>, the entry of a row is the one its own step
  leaves, when no later successful submission has the same row index.\<close>

lemma startVerification_row:
  assumes "url \<noteq> []"
    and "successfulSubmissions submissionResults = earlier @ result # later"
    and "rowIndex result \<notin> rowIndex ` set later"
  shows "filter (\<lambda>r. v_rowIndex r = rowIndex result)
           (verificationResults (startVerification (Some url) srv submissionResults v)) =
         filter (\<lambda>r. v_rowIndex r = rowIndex result)
           (verificationResults
              (verify_one url srv result
                 (fold (verify_one url srv) earlier (v\<lparr> isVerifying := True \<rparr>))))"
  using assms by (simp add: startVerification_def fold_verify_one_row_kept)

lemma fresh_verifier_results:
  "verificationResults (fresh_verifier resp) =
     [\<lparr> v_rowIndex = 0, submitted = JObj [(''a'', JNum 1), (''b'', JNum 2)],
        retrieved = JUndefined, v_status = V_error,
        v_error = Some (Literal ''Verification not started'') \<rparr>]"
  "gets (fresh_verifier resp) = []"
  by (simp_all add: fresh_verifier_def initializeVerification_def successfulSubmissions_def
      submitted_ab_def)

lemma submitted_ab_identifier:
  "identifier_of (submitted_ab (JObj [(''id'', JNum 7)])) = JNum 7"
  "identifier_of (submitted_ab (JObj [(''id'', JNum 0), (''ID'', JNum 5)])) = JNum 5"
  by (simp_all add: identifier_of_def submitted_ab_def opt_prop_def read_prop_def js_or_def)

text \<open>
  C8, as stated, fails. The payload \<open>{a: 1, b: 2}\<close> was stored under id 7, and the
  verification request is answered with status 200 and the JSON body \<open>null\<close>. Reading
  \<open>retrieved["a"]\<close> throws, the \<open>catch\<close> of the loop takes it, and the row is marked
  \<open>error\<close>: neither \<open>verified\<close> nor \<open>mismatch\<close>.
\<close>

theorem C8_null_body_counterexample:
  "answers_json JNull 0 ''http://h/users/7''
     = Inr \<lparr> r_status = 200, r_statusText = ''OK'', r_allow = None, r_json = Inr JNull \<rparr>
   \<and> ok \<lparr> r_status = 200, r_statusText = ''OK'', r_allow = None, r_json = Inr JNull \<rparr>
   \<and> verify_one ''http://h/users'' (answers_json JNull)
        (submitted_ab (JObj [(''id'', JNum 7)])) (fresh_verifier (JObj [(''id'', JNum 7)]))
     = \<lparr> verificationResults =
           [\<lparr> v_rowIndex = 0, submitted = JObj [(''a'', JNum 1), (''b'', JNum 2)],
              retrieved = JUndefined, v_status = V_error,
              v_error = Some (MessageOf (PropertyOfNullish ''a'')) \<rparr>],
         isVerifying = False,
         gets = [''http://h/users/7''] \<rparr>"
proof -
  have url: "getUrl @ ''/'' @ to_string (JNum 7) = getUrl @ ''/7''" for getUrl
    by (simp add: show_int_def show_nat_examples)
  show ?thesis
    unfolding verify_one_def submitted_ab_identifier Let_def url
    by (simp add: answers_json_def ok_def bind_err_def compareData_def object_entries_def
        get_prop_def update_verification_def submitted_ab_def fresh_verifier_def
        initializeVerification_def successfulSubmissions_def)
qed

text \<open>
  C8, amended. Given a 2xx verification response whose body is JSON and not \<open>null\<close>,
  the row of a submission that carries its payload is marked \<open>verified\<close> if every key of the submitted payload has, in the
  retrieved body, a value strictly equal to the submitted one, and \<open>mismatch\<close>
  otherwise; the retrieved body is attached either way. A field that only the
  retrieved record has never changes the outcome.
\<close>

theorem C8_one_directional_comparison:
  assumes "truthy (identifier_of result)"
    and "srv (length (gets v)) (verify_url getEndpointUrl result) = Inr resp"
    and "ok resp"
    and "r_json resp = Inr body"
    and "\<not> nullish body"
    and "\<not> nullish (payload result)"
  shows "verificationResults (verify_one getEndpointUrl srv result v) =
           row_marked (rowIndex result)
             (if all_keys_equal (payload result) body then V_verified else V_mismatch)
             (Some body) None (verificationResults v)
         \<and> (\<forall>kvs k x. k \<notin> fst ` set (own_entries (payload result)) \<longrightarrow>
               all_keys_equal (payload result) (JObj (kvs @ [(k, x)])) =
               all_keys_equal (payload result) (JObj kvs))"
  using assms
  by (simp add: verify_one_def verify_url_def bind_err_def compareData_eq Let_def
      update_verification_results_body extra_field_ignored)

theorem C8_one_directional_comparison_witness:
  "verificationResults
     (verify_one ''http://h/users''
        (answers_json (JObj [(''a'', JNum 1), (''b'', JNum 2), (''c'', JNum 99)]))
        (submitted_ab (JObj [(''id'', JNum 7)])) (fresh_verifier (JObj [(''id'', JNum 7)])))
   = [\<lparr> v_rowIndex = 0, submitted = JObj [(''a'', JNum 1), (''b'', JNum 2)],
        retrieved = JObj [(''a'', JNum 1), (''b'', JNum 2), (''c'', JNum 99)],
        v_status = V_verified, v_error = None \<rparr>]
   \<and> verificationResults
     (verify_one ''http://h/users''
        (answers_json (JObj [(''a'', JNum 1), (''b'', JNum 3)]))
        (submitted_ab (JObj [(''id'', JNum 7)])) (fresh_verifier (JObj [(''id'', JNum 7)])))
   = [\<lparr> v_rowIndex = 0, submitted = JObj [(''a'', JNum 1), (''b'', JNum 2)],
        retrieved = JObj [(''a'', JNum 1), (''b'', JNum 3)],
        v_status = V_mismatch, v_error = None \<rparr>]"
proof -
  let ?r = "submitted_ab (JObj [(''id'', JNum 7)])"
  let ?v = "fresh_verifier (JObj [(''id'', JNum 7)])"
  let ?resp = "\<lambda>b. \<lparr> r_status = 200, r_statusText = ''OK'', r_allow = None, r_json = Inr b \<rparr>"
  have id: "truthy (identifier_of ?r)"
    by (simp add: submitted_ab_identifier)
  have srv: "answers_json b (length (gets ?v)) (verify_url ''http://h/users'' ?r) = Inr (?resp b)"
    for b by (simp add: answers_json_def)
  have ok: "ok (?resp b)" for b
    by (simp add: ok_def)
  have pl: "\<not> nullish (payload ?r)" "rowIndex ?r = 0"
    "payload ?r = JObj [(''a'', JNum 1), (''b'', JNum 2)]"
    by (simp_all add: submitted_ab_def)
  have same: "all_keys_equal (payload ?r) (JObj [(''a'', JNum 1), (''b'', JNum 2), (''c'', JNum 99)])"
    by (simp add: pl all_keys_equal_def read_prop_def strict_eq_def)
  have other: "\<not> all_keys_equal (payload ?r) (JObj [(''a'', JNum 1), (''b'', JNum 3)])"
    by (simp add: pl all_keys_equal_def read_prop_def strict_eq_def)
  have one: "verificationResults (verify_one ''http://h/users'' (answers_json b) ?r ?v) =
      row_marked (rowIndex ?r)
        (if all_keys_equal (payload ?r) b then V_verified else V_mismatch)
        (Some b) None (verificationResults ?v)" if "\<not> nullish b" for b
    using C8_one_directional_comparison
      [where result = ?r and srv = "answers_json b" and v = ?v
         and getEndpointUrl = "''http://h/users''" and resp = "?resp b" and body = b]
      id srv ok pl(1) that
    by simp
  have "\<not> nullish (JObj [(''a'', JNum 1), (''b'', JNum 2), (''c'', JNum 99)])"
    and "\<not> nullish (JObj [(''a'', JNum 1), (''b'', JNum 3)])"
    by simp_all
  then show ?thesis
    using same other
    by (simp add: one pl(2) fresh_verifier_results row_marked_def)
qed

text \<open>
  C9. For a row whose verification request is made and answered, a response that is
  not 2xx marks the row \<open>not_found\<close> when its status is 404, and \<open>error\<close> with the
  text \<open>"HTTP {status}: {statusText}"\<close> for any other status.
\<close>

theorem C9_not_found_is_not_error:
  assumes "truthy (identifier_of result)"
    and "srv (length (gets v)) (verify_url getEndpointUrl result) = Inr resp"
    and "\<not> ok resp"
  shows "verificationResults (verify_one getEndpointUrl srv result v) =
           (if r_status resp = 404
            then row_marked (rowIndex result) V_not_found None
                   (Some (Literal ''Record not found'')) (verificationResults v)
            else row_marked (rowIndex result) V_error None
                   (Some (Literal (''HTTP '' @ show_nat (r_status resp) @ '': '' @ r_statusText resp)))
                   (verificationResults v))
         \<and> gets (verify_one getEndpointUrl srv result v) =
             gets v @ [verify_url getEndpointUrl result]"
  using assms
  by (simp add: verify_one_def verify_url_def bind_err_def Let_def http_error_text_def
      update_verification_results)

theorem C9_not_found_is_not_error_witness:
  "map v_status (verificationResults
     (verify_one ''http://h/users'' (answers_status 404 ''Not Found'')
        (submitted_ab (JObj [(''id'', JNum 7)])) (fresh_verifier (JObj [(''id'', JNum 7)]))))
   = [V_not_found]
   \<and> map (\<lambda>r. (v_status r, v_error r)) (verificationResults
     (verify_one ''http://h/users'' (answers_status 500 ''Internal Server Error'')
        (submitted_ab (JObj [(''id'', JNum 7)])) (fresh_verifier (JObj [(''id'', JNum 7)]))))
   = [(V_error, Some (Literal ''HTTP 500: Internal Server Error''))]"
proof -
  let ?r = "submitted_ab (JObj [(''id'', JNum 7)])"
  let ?v = "fresh_verifier (JObj [(''id'', JNum 7)])"
  let ?resp = "\<lambda>code phrase. \<lparr> r_status = code, r_statusText = phrase, r_allow = None,
                   r_json = Inl (JsonSyntax ''Unexpected end of JSON input'') \<rparr>"
  have id: "truthy (identifier_of ?r)"
    by (simp add: submitted_ab_identifier)
  have srv: "answers_status code phrase (length (gets ?v)) (verify_url ''http://h/users'' ?r)
      = Inr (?resp code phrase)" for code phrase
    by (simp add: answers_status_def)
  have no1: "\<not> ok (?resp 404 ''Not Found'')"
    and no2: "\<not> ok (?resp 500 ''Internal Server Error'')"
    by (simp_all add: ok_def)
  have row: "rowIndex ?r = 0"
    by (simp add: submitted_ab_def)
  have one: "verificationResults
        (verify_one ''http://h/users'' (answers_status code phrase) ?r ?v) =
      (if code = 404
       then row_marked (rowIndex ?r) V_not_found None
              (Some (Literal ''Record not found'')) (verificationResults ?v)
       else row_marked (rowIndex ?r) V_error None
              (Some (Literal (''HTTP '' @ show_nat code @ '': '' @ phrase)))
              (verificationResults ?v))" if "\<not> ok (?resp code phrase)" for code phrase
    using C9_not_found_is_not_error
      [where result = ?r and srv = "answers_status code phrase" and v = ?v
         and getEndpointUrl = "''http://h/users''" and resp = "?resp code phrase"]
      id srv that
    by simp
  show ?thesis
    by (simp add: one [OF no1] one [OF no2] row fresh_verifier_results row_marked_def
        show_nat_examples)
qed

text \<open>
  C10, as stated, fails. The response \<open>{id: 0, ID: 5}\<close> carries an \<open>id\<close> key bound to
  a falsy value and the payload \<open>{a: 1, b: 2}\<close> has no \<open>id\<close>, yet the identifier is
  \<open>5\<close>, taken from \<open>ID\<close>: the verification request is made, and the row gets the
  status of its answer.
\<close>

theorem C10_other_key_counterexample:
  "opt_prop (response (submitted_ab (JObj [(''id'', JNum 0), (''ID'', JNum 5)]))) ''id'' = JNum 0
   \<and> \<not> truthy (JNum 0)
   \<and> opt_prop (payload (submitted_ab (JObj [(''id'', JNum 0), (''ID'', JNum 5)]))) ''id''
       = JUndefined
   \<and> verify_one ''http://h/users'' (answers_status 404 ''Not Found'')
        (submitted_ab (JObj [(''id'', JNum 0), (''ID'', JNum 5)]))
        (fresh_verifier (JObj [(''id'', JNum 0), (''ID'', JNum 5)]))
     = \<lparr> verificationResults =
           [\<lparr> v_rowIndex = 0, submitted = JObj [(''a'', JNum 1), (''b'', JNum 2)],
              retrieved = JUndefined, v_status = V_not_found,
              v_error = Some (Literal ''Record not found'') \<rparr>],
         isVerifying = False,
         gets = [''http://h/users/5''] \<rparr>"
proof -
  have url: "getUrl @ ''/'' @ to_string (JNum 5) = getUrl @ ''/5''" for getUrl
    by (simp add: show_int_def show_nat_examples)
  show ?thesis
    unfolding verify_one_def submitted_ab_identifier Let_def url
    by (simp add: answers_status_def ok_def bind_err_def update_verification_def
        submitted_ab_def fresh_verifier_def initializeVerification_def
        successfulSubmissions_def opt_prop_def read_prop_def)
qed

text \<open>
  C10, amended. For every successful submission whose response binds neither \<open>id\<close>
  nor \<open>ID\<close> to a truthy value (each is absent or bound to \<open>0\<close>, the empty string,
  \<open>false\<close> or \<open>null\<close>) and whose payload has no truthy \<open>id\<close>, the identifier counts
  as absent: the row is marked \<open>error\<close> with \<open>"No identifier found in response"\<close>
  and no verification request is made, also when the response does carry an
  identifier field with a falsy value.
\<close>

theorem C10_falsy_identifier_is_absent:
  assumes "\<not> truthy (opt_prop (response result) ''id'')"
    and "\<not> truthy (opt_prop (response result) ''ID'')"
    and "\<not> truthy (opt_prop (payload result) ''id'')"
  shows "verificationResults (verify_one getEndpointUrl srv result v) =
           row_marked (rowIndex result) V_error None
             (Some (Literal ''No identifier found in response'')) (verificationResults v)
         \<and> gets (verify_one getEndpointUrl srv result v) = gets v"
  using assms
  by (simp add: verify_one_def identifier_of_def js_or_def Let_def update_verification_results)

theorem C10_falsy_identifier_is_absent_witness:
  "opt_prop (response (submitted_ab (JObj [(''id'', JNum 0)]))) ''id'' = JNum 0
   \<and> map (\<lambda>r. (v_status r, v_error r)) (verificationResults
       (verify_one ''http://h/users'' (answers_json (JObj [(''a'', JNum 1), (''b'', JNum 2)]))
          (submitted_ab (JObj [(''id'', JNum 0)])) (fresh_verifier (JObj [(''id'', JNum 0)]))))
     = [(V_error, Some (Literal ''No identifier found in response''))]
   \<and> gets (verify_one ''http://h/users'' (answers_json (JObj [(''a'', JNum 1), (''b'', JNum 2)]))
          (submitted_ab (JObj [(''id'', JNum 0)])) (fresh_verifier (JObj [(''id'', JNum 0)])))
     = []"
proof -
  let ?r = "submitted_ab (JObj [(''id'', JNum 0)])"
  have a: "opt_prop (response ?r) ''id'' = JNum 0"
    and b: "\<not> truthy (opt_prop (response ?r) ''id'')"
    and c: "\<not> truthy (opt_prop (response ?r) ''ID'')"
    and d: "\<not> truthy (opt_prop (payload ?r) ''id'')"
    and row: "rowIndex ?r = 0"
    by (simp_all add: submitted_ab_def opt_prop_def read_prop_def)
  from C10_falsy_identifier_is_absent [OF b c d] a
  show ?thesis
    by (simp add: row fresh_verifier_results row_marked_def)
qed

section \<open>Properties of the submission pipeline\<close>

lemma foreach_put_mapping:
  "foreach_err (put_mapping (JObj row)) ms acc =
   Inr (fold (\<lambda>m pl. obj_put pl (to_string (apiField m))
                       (read_prop (JObj row) (spreadsheetColumn m))) ms acc)"
  by (induction ms arbitrary: acc) (simp_all add: put_mapping_def bind_err_def get_prop_def)

lemma generatePayload_in_range:
  "i < length rows \<Longrightarrow> \<exists>pl. generatePayload rows ms i = Inr (JObj pl)"
  by (simp add: generatePayload_def row_at_def foreach_put_mapping bind_err_def)

lemma update_row_rowIndex:
  "(\<And>r. rowIndex (g r) = rowIndex r) \<Longrightarrow> map rowIndex (update_row i g rs) = map rowIndex rs"
  by (induction rs) (simp_all add: update_row_def)

lemma update_row_mem:
  assumes "\<And>r. rowIndex (g r) = rowIndex r"
    and "r \<in> set (update_row i g rs)"
  shows "(rowIndex r = i \<and> (\<exists>r0 \<in> set rs. r = g r0)) \<or> (rowIndex r \<noteq> i \<and> r \<in> set rs)"
  using assms by (auto simp: update_row_def)

lemma submitRow_shape:
  assumes "i < length rows"
  shows "\<exists>pl g. (\<forall>r. rowIndex (g r) = rowIndex r \<and> settled (g r)) \<and>
     submitRow rows ms srv i c =
       Inr (c\<lparr> results := update_row i g (update_row i (\<lambda>r. r\<lparr> status := S_pending, payload := pl \<rparr>) (results c)),
               history := history c @ [update_row i (\<lambda>r. r\<lparr> status := S_pending, payload := pl \<rparr>) (results c),
                                       update_row i g (update_row i (\<lambda>r. r\<lparr> status := S_pending, payload := pl \<rparr>) (results c))],
               requests := requests c @ [(i, pl)] \<rparr>)"
proof -
  from generatePayload_in_range [OF assms] obtain p where p: "generatePayload rows ms i = Inr (JObj p)"
    by blast
  let ?pl = "JObj p"
  let ?answer = "bind_err (srv (length (requests c))) (\<lambda>resp.
                   bind_err (if ok resp then r_json resp else Inr JNull) (\<lambda>responseData.
                     Inr (resp, responseData)))"
  show ?thesis
  proof (cases ?answer)
    case (Inl e)
    let ?g = "\<lambda>r. r\<lparr> status := S_error, error := Some (MessageOf e) \<rparr>"
    have a: "\<forall>r. rowIndex (?g r) = rowIndex r \<and> settled (?g r)"
      by (simp add: settled_def)
    have b: "submitRow rows ms srv i c =
       Inr (c\<lparr> results := update_row i ?g (update_row i (\<lambda>r. r\<lparr> status := S_pending, payload := ?pl \<rparr>) (results c)),
               history := history c @ [update_row i (\<lambda>r. r\<lparr> status := S_pending, payload := ?pl \<rparr>) (results c),
                                       update_row i ?g (update_row i (\<lambda>r. r\<lparr> status := S_pending, payload := ?pl \<rparr>) (results c))],
               requests := requests c @ [(i, ?pl)] \<rparr>)"
      using Inl by (simp add: submitRow_def p bind_err_def setResults_def Let_def)
    show ?thesis
      by (rule exI [of _ ?pl], rule exI [of _ ?g], rule conjI [OF a b])
  next
    case (Inr a)
    obtain resp responseData where "a = (resp, responseData)" by (cases a)
    with Inr have ans: "?answer = Inr (resp, responseData)" by simp
    let ?g = "\<lambda>r. r\<lparr> status := (if ok resp then S_success else S_error),
                       response := responseData,
                       error := (if ok resp then None else Some (http_error_text resp)) \<rparr>"
    have a: "\<forall>r. rowIndex (?g r) = rowIndex r \<and> settled (?g r)"
      by (simp add: settled_def)
    have b: "submitRow rows ms srv i c =
       Inr (c\<lparr> results := update_row i ?g (update_row i (\<lambda>r. r\<lparr> status := S_pending, payload := ?pl \<rparr>) (results c)),
               history := history c @ [update_row i (\<lambda>r. r\<lparr> status := S_pending, payload := ?pl \<rparr>) (results c),
                                       update_row i ?g (update_row i (\<lambda>r. r\<lparr> status := S_pending, payload := ?pl \<rparr>) (results c))],
               requests := requests c @ [(i, ?pl)] \<rparr>)"
      using ans by (simp add: submitRow_def p bind_err_def setResults_def Let_def)
    show ?thesis
      by (rule exI [of _ ?pl], rule exI [of _ ?g], rule conjI [OF a b])
  qed
qed

lemma submission_loop_run:
  assumes "\<forall>i \<in> set todo. i < length rows"
    and "\<forall>rs \<in> set (history c). well_indexed (length rows) rs"
    and "well_indexed (length rows) (results c)"
    and "\<forall>r \<in> set (results c). rowIndex r \<in> D \<longrightarrow> settled r"
    and "\<not> seen_isPaused h"
  shows "\<exists>c'. submission_loop rows ms srv pauses h todo c = Inr c'
     \<and> (\<forall>rs \<in> set (history c'). well_indexed (length rows) rs)
     \<and> well_indexed (length rows) (results c')
     \<and> (\<forall>r \<in> set (results c'). rowIndex r \<in> D \<union> set todo \<longrightarrow> settled r)
     \<and> map fst (requests c') = map fst (requests c) @ todo
     \<and> completed c' = completed c
     \<and> currentRow c' = (if todo = [] then currentRow c else last todo)"
  using assms
proof (induction todo arbitrary: c D)
  case Nil
  then show ?case by simp
next
  case (Cons i todo)
  let ?c0 = "c\<lparr> currentRow := i \<rparr>"
  have i: "i < length rows" using Cons.prems(1) by simp
  from submitRow_shape [OF i, of ms srv ?c0]
  obtain pl g where g: "\<And>r. rowIndex (g r) = rowIndex r" "\<And>r. settled (g r)"
    and run: "submitRow rows ms srv i ?c0 =
       Inr (?c0\<lparr> results := update_row i g (update_row i (\<lambda>r. r\<lparr> status := S_pending, payload := pl \<rparr>) (results ?c0)),
               history := history ?c0 @ [update_row i (\<lambda>r. r\<lparr> status := S_pending, payload := pl \<rparr>) (results ?c0),
                                       update_row i g (update_row i (\<lambda>r. r\<lparr> status := S_pending, payload := pl \<rparr>) (results ?c0))],
               requests := requests ?c0 @ [(i, pl)] \<rparr>)"
    by blast
  let ?mid = "update_row i (\<lambda>r. r\<lparr> status := S_pending, payload := pl \<rparr>) (results c)"
  let ?new = "update_row i g ?mid"
  let ?c1 = "?c0\<lparr> results := ?new, history := history c @ [?mid, ?new],
                   requests := requests c @ [(i, pl)] \<rparr>"
  let ?c2 = "if pauses i then pauseSubmission ?c1 else ?c1"
  have mid: "well_indexed (length rows) ?mid"
    using Cons.prems(3) by (simp add: well_indexed_def update_row_rowIndex)
  have new: "well_indexed (length rows) ?new"
    using mid g(1) by (simp add: well_indexed_def update_row_rowIndex)
  have settled_new: "\<forall>r \<in> set ?new. rowIndex r \<in> insert i D \<longrightarrow> settled r"
  proof (intro ballI impI)
    fix r assume r: "r \<in> set ?new" and d: "rowIndex r \<in> insert i D"
    from update_row_mem [OF g(1) r] show "settled r"
    proof
      assume "rowIndex r = i \<and> (\<exists>r0 \<in> set ?mid. r = g r0)"
      then show ?thesis using g(2) by auto
    next
      assume a: "rowIndex r \<noteq> i \<and> r \<in> set ?mid"
      then have "r \<in> set (results c)"
        using update_row_mem [of "\<lambda>r. r\<lparr> status := S_pending, payload := pl \<rparr>" r i "results c"]
        by auto
      with a d Cons.prems(4) show ?thesis by auto
    qed
  qed
  have fields: "results ?c2 = ?new" "history ?c2 = history c @ [?mid, ?new]"
    "requests ?c2 = requests c @ [(i, pl)]" "completed ?c2 = completed c" "currentRow ?c2 = i"
    by (simp_all add: pauseSubmission_def)
  have p1: "\<forall>i \<in> set todo. i < length rows" using Cons.prems(1) by simp
  have p2: "\<forall>rs \<in> set (history ?c2). well_indexed (length rows) rs"
    using Cons.prems(2) mid new by (auto simp: fields)
  have p3: "well_indexed (length rows) (results ?c2)"
    using new by (simp add: fields)
  have p4: "\<forall>r \<in> set (results ?c2). rowIndex r \<in> insert i D \<longrightarrow> settled r"
    using settled_new by (simp add: fields)
  from Cons.IH [OF p1 p2 p3 p4 Cons.prems(5)]
  obtain c' where c': "submission_loop rows ms srv pauses h todo ?c2 = Inr c'"
     "\<forall>rs \<in> set (history c'). well_indexed (length rows) rs"
     "well_indexed (length rows) (results c')"
     "\<forall>r \<in> set (results c'). rowIndex r \<in> insert i D \<union> set todo \<longrightarrow> settled r"
     "map fst (requests c') = map fst (requests ?c2) @ todo"
     "completed c' = completed ?c2"
     "currentRow c' = (if todo = [] then currentRow ?c2 else last todo)"
    by blast
  have "submission_loop rows ms srv pauses h (i # todo) c = Inr c'"
    using Cons.prems(5) run c'(1) by (simp add: bind_err_def)
  moreover have "map fst (requests c') = map fst (requests c) @ i # todo"
    using c'(5) by (simp add: fields)
  moreover have "completed c' = completed c"
    using c'(6) by (simp add: fields)
  moreover have "currentRow c' = (if i # todo = [] then currentRow c else last (i # todo))"
    using c'(7) by (simp add: fields)
  moreover have "\<forall>r \<in> set (results c'). rowIndex r \<in> D \<union> set (i # todo) \<longrightarrow> settled r"
    using c'(4) by simp
  ultimately show ?case using c'(2,3) by blast
qed


lemma submission_loop_paused:
  "seen_isPaused h \<Longrightarrow> submission_loop rows ms srv pauses h todo c = Inr c"
  by (cases todo) simp_all

lemma initialResults_well_indexed: "well_indexed (length rows) (initialResults rows)"
  by (simp add: well_indexed_def initialResults_def o_def)

lemma startSubmission_table_ok:
  assumes "table_ok rows c"
  shows "\<exists>c'. startSubmission rows ms srv pauses h c = Inr c' \<and> table_ok rows c'"
proof (cases "seen_isPaused h")
  case True
  then show ?thesis
    using assms
    by (simp add: startSubmission_def submission_loop_paused bind_err_def table_ok_def Let_def)
next
  case False
  let ?c0 = "c\<lparr> isRunning := True, isPaused := False \<rparr>"
  have "\<forall>i \<in> set [seen_currentRow h..<length rows]. i < length rows" by simp
  moreover have "\<forall>rs \<in> set (history ?c0). well_indexed (length rows) rs"
    and "well_indexed (length rows) (results ?c0)"
    and "\<forall>r \<in> set (results ?c0). rowIndex r \<in> {} \<longrightarrow> settled r"
    using assms by (simp_all add: table_ok_def)
  ultimately obtain c' where
    "submission_loop rows ms srv pauses h [seen_currentRow h..<length rows] ?c0 = Inr c'"
    "\<forall>rs \<in> set (history c'). well_indexed (length rows) rs"
    "well_indexed (length rows) (results c')"
    using submission_loop_run [of "[seen_currentRow h..<length rows]" rows ?c0 "{}" h ms srv pauses] False
    by blast
  then show ?thesis
    by (simp add: startSubmission_def bind_err_def table_ok_def Let_def)
qed

text \<open>Each single update of a row keeps the table well indexed, whichever run makes it.\<close>

lemma setResults_update_row_table_ok:
  assumes "table_ok rows c" and "\<And>r. rowIndex (g r) = rowIndex r"
  shows "table_ok rows (setResults (update_row i g) c)"
  using assms by (simp add: table_ok_def setResults_def well_indexed_def update_row_rowIndex)


text \<open>
  C6. Once the component has taken the spreadsheet, the result table has exactly one
  entry per row, with the row indices \<open>0..N-1\<close> in order, and it keeps this shape
  through every update: through a run of \<open>startSubmission\<close> started from any state by
  any handler, with any answers of the server and any Pause clicks, through
  \<open>pauseSubmission\<close> and through \<open>resetSubmission\<close>. The run that the first click on
  Start begins returns, and when it does every entry is \<open>success\<close> or \<open>error\<close>.
\<close>

theorem C6_result_table:
  "table_ok rows (mounted rows)
   \<and> (table_ok rows c \<longrightarrow>
        (\<exists>c'. startSubmission rows ms srv pauses h c = Inr c' \<and> table_ok rows c')
        \<and> table_ok rows (pauseSubmission c)
        \<and> table_ok rows (resetSubmission rows c))
   \<and> (\<exists>c'. click_start rows ms srv (\<lambda>i. False) (mounted rows) = Inr c'
          \<and> table_ok rows c'
          \<and> (\<forall>r \<in> set (results c'). status r = S_success \<or> status r = S_error))"
proof (intro conjI impI)
  show m: "table_ok rows (mounted rows)"
    by (simp add: table_ok_def mounted_def initialResults_well_indexed)
  show "\<exists>c'. startSubmission rows ms srv pauses h c = Inr c' \<and> table_ok rows c'"
    if "table_ok rows c" using that by (rule startSubmission_table_ok)
  show "table_ok rows (pauseSubmission c)" if "table_ok rows c"
    using that by (simp add: table_ok_def pauseSubmission_def)
  show "table_ok rows (resetSubmission rows c)" if "table_ok rows c"
    using that
    by (simp add: table_ok_def resetSubmission_def setResults_def initialResults_well_indexed)
  let ?c0 = "(mounted rows)\<lparr> isRunning := True, isPaused := False \<rparr>"
  let ?h = "render_of (mounted rows)"
  have h: "\<not> seen_isPaused ?h" "seen_currentRow ?h = 0"
    by (simp_all add: render_of_def mounted_def)
  have "\<forall>i \<in> set [0..<length rows]. i < length rows" by simp
  moreover have "\<forall>rs \<in> set (history ?c0). well_indexed (length rows) rs"
    and "well_indexed (length rows) (results ?c0)"
    and "\<forall>r \<in> set (results ?c0). rowIndex r \<in> {} \<longrightarrow> settled r"
    using m by (simp_all add: table_ok_def)
  ultimately obtain c' where c':
    "submission_loop rows ms srv (\<lambda>i. False) ?h [0..<length rows] ?c0 = Inr c'"
    "\<forall>rs \<in> set (history c'). well_indexed (length rows) rs"
    "well_indexed (length rows) (results c')"
    "\<forall>r \<in> set (results c'). rowIndex r \<in> {} \<union> set [0..<length rows] \<longrightarrow> settled r"
    using submission_loop_run [of "[0..<length rows]" rows ?c0 "{}" ?h ms srv "\<lambda>i. False"] h(1)
    by blast
  have "rowIndex r \<in> set [0..<length rows]" if "r \<in> set (results c')" for r
  proof -
    from that have "rowIndex r \<in> set (map rowIndex (results c'))" by simp
    with c'(3) show ?thesis by (simp add: well_indexed_def)
  qed
  with c'(4) have all: "\<forall>r \<in> set (results c'). settled r" by blast
  obtain c'' where c'': "click_start rows ms srv (\<lambda>i. False) (mounted rows) = Inr c''"
    "results c'' = results c'" "history c'' = history c'"
    using c'(1) h(2)
    by (cases "int 0 \<ge> int (length rows) - 1")
       (simp_all add: click_start_def startSubmission_def bind_err_def Let_def)
  show "\<exists>c'. click_start rows ms srv (\<lambda>i. False) (mounted rows) = Inr c'
          \<and> table_ok rows c'
          \<and> (\<forall>r \<in> set (results c'). status r = S_success \<or> status r = S_error)"
    using c'' c'(2,3) all by (auto simp: table_ok_def settled_def)
qed

theorem C6_result_table_witness:
  "table_ok two_rows (mounted two_rows)
   \<and> table_ok two_rows (pauseSubmission (mounted two_rows))
   \<and> table_ok two_rows (resetSubmission two_rows (mounted two_rows))
   \<and> (\<exists>c'. click_start two_rows [email_mapping] accepting (\<lambda>i. False) (mounted two_rows) = Inr c'
          \<and> table_ok two_rows c'
          \<and> list_all (\<lambda>r. status r = S_success \<or> status r = S_error) (results c'))"
  using C6_result_table [of two_rows "mounted two_rows" "[email_mapping]" accepting
      "\<lambda>i. False" "render_of (mounted two_rows)"]
  by (auto simp: list_all_iff)

text \<open>
  The run that the first click on Start begins, for any spreadsheet, server and Pause
  clicks: it requests every row, in order; it ends with the cursor on the last row;
  and with two rows or more it never calls \<open>onSubmissionComplete\<close>. The handler reads
  \<open>isPaused\<close> and \<open>currentRow\<close> as they were at the click.
\<close>

lemma first_run:
  "\<exists>c. click_start rows ms srv pauses (mounted rows) = Inr c
     \<and> map fst (requests c) = [0..<length rows]
     \<and> (rows \<noteq> [] \<longrightarrow> currentRow c = length rows - 1)
     \<and> (2 \<le> length rows \<longrightarrow> completed c = [])"
proof -
  let ?c0 = "(mounted rows)\<lparr> isRunning := True, isPaused := False \<rparr>"
  let ?h = "render_of (mounted rows)"
  have h: "\<not> seen_isPaused ?h" "seen_currentRow ?h = 0"
    by (simp_all add: render_of_def mounted_def)
  have "\<forall>i \<in> set [0..<length rows]. i < length rows" by simp
  moreover have "\<forall>rs \<in> set (history ?c0). well_indexed (length rows) rs"
    and "well_indexed (length rows) (results ?c0)"
    and "\<forall>r \<in> set (results ?c0). rowIndex r \<in> {} \<longrightarrow> settled r"
    by (simp_all add: mounted_def initialResults_well_indexed)
  ultimately obtain c' where c':
    "submission_loop rows ms srv pauses ?h [0..<length rows] ?c0 = Inr c'"
    "map fst (requests c') = map fst (requests ?c0) @ [0..<length rows]"
    "completed c' = completed ?c0"
    "currentRow c' = (if [0..<length rows] = [] then currentRow ?c0 else last [0..<length rows])"
    using submission_loop_run [of "[0..<length rows]" rows ?c0 "{}" ?h ms srv pauses] h(1)
    by blast
  have last: "last [0..<length rows] = length rows - 1" if "rows \<noteq> []"
    using that by (cases rows rule: rev_cases) simp_all
  show ?thesis
  proof (cases "int 0 \<ge> int (length rows) - 1")
    case True
    then have "click_start rows ms srv pauses (mounted rows) =
        Inr (c'\<lparr> isRunning := False,
                 completed := completed c' @ [seen_results ?h] \<rparr>)"
      using c'(1) h(2)
      by (simp add: click_start_def startSubmission_def bind_err_def Let_def)
    moreover from True have "\<not> 2 \<le> length rows" by simp
    ultimately show ?thesis
      using c'(2,4) last by (auto simp: mounted_def)
  next
    case False
    then have "click_start rows ms srv pauses (mounted rows) = Inr (c'\<lparr> isRunning := False \<rparr>)"
      using c'(1) h(2)
      by (simp add: click_start_def startSubmission_def bind_err_def Let_def)
    then show ?thesis
      using c'(2,3,4) last by (auto simp: mounted_def)
  qed
qed

text \<open>
  C2 on a spreadsheet of three rows that the server accepts. The user clicks Start and,
  while row 0 is in flight, Pause. The loop goes on: rows 1 and 2 are requested by the
  same run, and the cursor ends on 2, the last row attempted, not on 3. A click on
  Resume then finds nothing to do. After a run without any pause over two rows the
  cursor is 1, and the Resume button that the component then shows submits row 1 a
  second time.
\<close>

theorem C2_pause_does_not_stop_the_loop:
  "map_sum id (\<lambda>c. (map fst (requests c), isPaused c, isRunning c, currentRow c))
     (click_start three_rows [email_mapping] accepting (\<lambda>i. i = 0) (mounted three_rows))
   = Inr ([0, 1, 2], True, False, 2)
   \<and> map_sum id (\<lambda>c. map fst (requests c))
       (bind_err
          (click_start three_rows [email_mapping] accepting (\<lambda>i. i = 0) (mounted three_rows))
          (click_start three_rows [email_mapping] accepting (\<lambda>i. False)))
     = Inr [0, 1, 2]
   \<and> map_sum id (\<lambda>c. (map fst (requests c), currentRow c))
       (click_start two_rows [email_mapping] accepting (\<lambda>i. False) (mounted two_rows))
     = Inr ([0, 1], 1)
   \<and> map_sum id (\<lambda>c. map fst (requests c))
       (bind_err
          (click_start two_rows [email_mapping] accepting (\<lambda>i. False) (mounted two_rows))
          (click_start two_rows [email_mapping] accepting (\<lambda>i. False)))
     = Inr [0, 1, 1]"
  by code_simp

text \<open>
  C3 on a spreadsheet of two rows that the server accepts, without any pause. The run
  settles both rows and does not call \<open>onSubmissionComplete\<close>: the test after the loop
  reads \<open>currentRow\<close> as it was at the click, which is 0. On a spreadsheet of one row
  the call is made, with the results as they were at the click: one pending entry.
\<close>

theorem C3_completion_is_not_reported:
  "map_sum id (\<lambda>c. (map status (results c), isRunning c, completed c))
     (click_start two_rows [email_mapping] accepting (\<lambda>i. False) (mounted two_rows))
   = Inr ([S_success, S_success], False, [])
   \<and> map_sum id (\<lambda>c. (map status (results c), map (map status) (completed c)))
       (click_start [[(''email'', JStr ''a@x.org'')]] [email_mapping] accepting (\<lambda>i. False)
          (mounted [[(''email'', JStr ''a@x.org'')]]))
     = Inr ([S_success], [[S_pending]])"
  by code_simp

end
